theory Spec2Isabelle
  imports Complex_Main
begin

section \<open>Standard-library helpers used by the source\<close>

text \<open>
  Strings are byte lists. The three characters that cannot be written inside a
  string literal are named here.
\<close>

definition newline :: char where
  "newline = CHR 0x0A"

definition squote :: char where
  "squote = CHR 0x27"

definition dquote :: char where
  "dquote = CHR 0x22"

text \<open>The character class of \<^verbatim>\<open>" \t\n\r"\<close>, used by both trimming sites of the source.\<close>

definition trim_chars :: "char list" where
  "trim_chars = [CHR '' '', CHR 0x09, CHR 0x0A, CHR 0x0D]"

text \<open>\<^verbatim>\<open>s.erase(s.find_last_not_of(" \n\r\t") + 1)\<close>: drops the trailing run of trim
  characters; a string made of trim characters only becomes empty (npos + 1 = 0).\<close>

definition rtrim :: "string \<Rightarrow> string" where
  "rtrim s = rev (dropWhile (\<lambda>c. c \<in> set trim_chars) (rev s))"

text \<open>\<^verbatim>\<open>s.erase(0, s.find_first_not_of(" \t\n\r"))\<close>.\<close>

definition ltrim :: "string \<Rightarrow> string" where
  "ltrim s = dropWhile (\<lambda>c. c \<in> set trim_chars) s"

text \<open>\<^verbatim>\<open>s.find(pat) != std::string::npos\<close>.\<close>

fun starts_with :: "string \<Rightarrow> string \<Rightarrow> bool" where
  "starts_with s [] = True"
| "starts_with [] (p # ps) = False"
| "starts_with (c # cs) (p # ps) = (c = p \<and> starts_with cs ps)"

fun str_find :: "string \<Rightarrow> string \<Rightarrow> bool" where
  "str_find [] pat = (pat = [])"
| "str_find (c # cs) pat = (starts_with (c # cs) pat \<or> str_find cs pat)"

text \<open>\<^verbatim>\<open>pos = s.find_last_of(':'); if (pos != npos) ... s.substr(pos + 1)\<close>: the text
  after the last colon, when there is a colon.\<close>

definition after_last_colon :: "string \<Rightarrow> string option" where
  "after_last_colon s =
     (if CHR '':'' \<in> set s then Some (rev (takeWhile (\<lambda>c. c \<noteq> CHR '':'') (rev s)))
      else None)"

text \<open>A character buffer read as a C string, as \<^verbatim>\<open>std::string(const char*)\<close> and its
  assignment do: the characters before the first NUL.\<close>

definition c_str :: "string \<Rightarrow> string" where
  "c_str buf = takeWhile (\<lambda>c. c \<noteq> CHR 0x00) buf"

text \<open>\<^verbatim>\<open>fgets(buf, n, f)\<close> on the unread text of a stream: nothing at end of file,
  otherwise at most \<open>n - 1\<close> characters, stopping after the first newline.\<close>

fun fgets_chars :: "nat \<Rightarrow> string \<Rightarrow> string" where
  "fgets_chars n [] = []"
| "fgets_chars n (c # cs) =
     (if n = 0 then [] else if c = newline then [c] else c # fgets_chars (n - 1) cs)"

definition fgets :: "nat \<Rightarrow> string \<Rightarrow> string option" where
  "fgets n s = (if s = [] then None else Some (fgets_chars (n - 1) s))"

text \<open>\<^verbatim>\<open>atoi\<close>, as the C library of a 64-bit Linux has it, \<^verbatim>\<open>(int) strtol(s, NULL, 10)\<close>:
  leading white space, an optional sign, then decimal digits up to the first other
  character; the value saturates at the bounds of \<^verbatim>\<open>long\<close> and is then cut to the 32
  bits of an \<^verbatim>\<open>int\<close>, two's complement.\<close>

definition isspace :: "char \<Rightarrow> bool" where
  "isspace c = (c \<in> set [CHR '' '', CHR 0x09, CHR 0x0A, CHR 0x0B, CHR 0x0C, CHR 0x0D])"

definition isdigit :: "char \<Rightarrow> bool" where
  "isdigit c = (c \<in> set ''0123456789'')"

definition digit_value :: "char \<Rightarrow> int" where
  "digit_value c = int (of_char c) - 48"

fun atoi_digits :: "int \<Rightarrow> string \<Rightarrow> int" where
  "atoi_digits acc [] = acc"
| "atoi_digits acc (c # cs) =
     (if isdigit c then atoi_digits (acc * 10 + digit_value c) cs else acc)"

definition strtol :: "string \<Rightarrow> int" where
  "strtol s =
     max (- 9223372036854775808) (min 9223372036854775807
       (case dropWhile isspace s of
          [] \<Rightarrow> 0
        | c # cs \<Rightarrow>
            if c = CHR ''-'' then - atoi_digits 0 cs
            else if c = CHR ''+'' then atoi_digits 0 cs
            else atoi_digits 0 (c # cs)))"

definition to_int32 :: "int \<Rightarrow> int" where
  "to_int32 v = (v + 2147483648) mod 4294967296 - 2147483648"

definition atoi :: "string \<Rightarrow> int" where
  "atoi s = to_int32 (strtol s)"

text \<open>\<^verbatim>\<open>std::to_string(int)\<close>: decimal digits, with a minus sign for a negative value.\<close>

fun digits_of :: "nat \<Rightarrow> string" where
  "digits_of n =
     (if n < 10 then [''0123456789'' ! n]
      else digits_of (n div 10) @ [''0123456789'' ! (n mod 10)])"

definition to_string :: "int \<Rightarrow> string" where
  "to_string i = (if i < 0 then CHR ''-'' # digits_of (nat (- i)) else digits_of (nat i))"

text \<open>\<^verbatim>\<open>double\<close>: the code stores these values and compares them with the constants
  \<open>100.0\<close> and \<open>0\<close>, nothing else. A value is its exact real number, an infinity or
  NaN; a comparison with NaN is false, as in IEEE 754.\<close>

datatype double = Fin real | PInf | NInf | NaN

fun double_ge :: "double \<Rightarrow> double \<Rightarrow> bool" where
  "double_ge NaN y = False"
| "double_ge x NaN = False"
| "double_ge PInf y = True"
| "double_ge x NInf = True"
| "double_ge NInf y = False"
| "double_ge x PInf = False"
| "double_ge (Fin a) (Fin b) = (a \<ge> b)"

definition double_gt :: "double \<Rightarrow> double \<Rightarrow> bool" where
  "double_gt x y = (double_ge x y \<and> x \<noteq> y)"

definition double_lt :: "double \<Rightarrow> double \<Rightarrow> bool" where
  "double_lt x y = double_gt y x"

section \<open>The outside world\<close>

text \<open>
  Every effect of the library is a call to an external facility: \<^verbatim>\<open>system\<close>,
  \<^verbatim>\<open>popen\<close>, \<^verbatim>\<open>fopen\<close>, or the Windows process snapshot. The world records the calls
  made so far, in order, and the one process-wide flag of the source (the static
  \<^verbatim>\<open>setup\<close> of \<^verbatim>\<open>init\<close>). What a call answers is given by an environment, as a function
  of the calls made before it and of its argument: no two calls have the same history,
  so an environment can answer any two calls differently. Console output is not part
  of the model.
\<close>

datatype platform = Windows | Linux

datatype call = System string | Popen string | Fopen string | Snapshot

record world =
  calls :: "call list"
  setup_flag :: bool

record env =
  system_rc :: "call list \<Rightarrow> string \<Rightarrow> int"
  popen_out :: "call list \<Rightarrow> string \<Rightarrow> string option"
  fopen_out :: "call list \<Rightarrow> string \<Rightarrow> string option"
  snapshot_procs :: "call list \<Rightarrow> (string \<times> string option) list option"
  is_admin :: bool
  format_fixed2 :: "double \<Rightarrow> string"
  parse_int_double :: "string \<Rightarrow> (int \<times> double) option"

text \<open>\<^verbatim>\<open>system(cmd)\<close>: the exit status, and the world with the call recorded.\<close>

definition system :: "env \<Rightarrow> string \<Rightarrow> world \<Rightarrow> int \<times> world" where
  "system e cmd w = (system_rc e (calls w) cmd, w\<lparr>calls := calls w @ [System cmd]\<rparr>)"

text \<open>\<^verbatim>\<open>popen(cmd, "r")\<close>: \<open>None\<close> for a null pipe, otherwise what the command prints.\<close>

definition popen :: "env \<Rightarrow> string \<Rightarrow> world \<Rightarrow> string option \<times> world" where
  "popen e cmd w = (popen_out e (calls w) cmd, w\<lparr>calls := calls w @ [Popen cmd]\<rparr>)"

text \<open>\<^verbatim>\<open>fopen(path, "r")\<close>: \<open>None\<close> for a null stream, otherwise the file's text.\<close>

definition fopen :: "env \<Rightarrow> string \<Rightarrow> world \<Rightarrow> string option \<times> world" where
  "fopen e path w = (fopen_out e (calls w) path, w\<lparr>calls := calls w @ [Fopen path]\<rparr>)"

text \<open>\<^verbatim>\<open>CreateToolhelp32Snapshot\<close> and the walk over it: \<open>None\<close> for an invalid
  handle, otherwise the entries in order, each with its executable name and, when
  both \<^verbatim>\<open>OpenProcess\<close> and \<^verbatim>\<open>QueryFullProcessImageNameA\<close> succeed on it, its path.\<close>

definition snapshot :: "env \<Rightarrow> world \<Rightarrow> (string \<times> string option) list option \<times> world" where
  "snapshot e w = (snapshot_procs e (calls w), w\<lparr>calls := calls w @ [Snapshot]\<rparr>)"

text \<open>A sequence of \<^verbatim>\<open>system\<close> calls whose exit statuses are ignored: the range-for
  loops of \<^verbatim>\<open>unblockLinux\<close>.\<close>

fun system_each :: "env \<Rightarrow> string list \<Rightarrow> world \<Rightarrow> world" where
  "system_each e [] w = w"
| "system_each e (cmd # cmds) w = system_each e cmds (snd (system e cmd w))"

text \<open>\<^verbatim>\<open>std::set<int>\<close> as the list of its elements in ascending order, which is the
  order the range-for loops visit.\<close>

definition set_insert :: "int \<Rightarrow> int list \<Rightarrow> int list" where
  "set_insert x xs = (if x \<in> set xs then xs else insort x xs)"

section \<open>The process blocker (first \<^verbatim>\<open>netctrl.hpp\<close>)\<close>

text \<open>The private members of \<^verbatim>\<open>NetCtrl\<close>.\<close>

record netctrl =
  rule_name :: string
  process_name :: string
  exe_path :: string
  blocked_pids_out :: "int list"
  blocked_pids_in :: "int list"
  blocked_cgroup :: string
  is_blocked_outbound :: bool
  is_blocked_inbound :: bool

text \<open>\<^verbatim>\<open>init\<close>: on Linux the chains are created once per process, guarded by the static
  flag; on Windows nothing happens.\<close>

definition init_cmd :: string where
  "init_cmd =
     ''(iptables -w -N NETCTRL_OUT 2>/dev/null; '' @
     ''iptables -w -N NETCTRL_IN 2>/dev/null; '' @
     ''iptables -w -C OUTPUT -j NETCTRL_OUT 2>/dev/null || '' @
     ''iptables -w -I OUTPUT -j NETCTRL_OUT; '' @
     ''iptables -w -C INPUT -j NETCTRL_IN 2>/dev/null || '' @
     ''iptables -w -I INPUT -j NETCTRL_IN) >/dev/null 2>&1 &''"

definition init :: "platform \<Rightarrow> env \<Rightarrow> world \<Rightarrow> world" where
  "init plat e w =
     (case plat of
        Windows \<Rightarrow> w
      | Linux \<Rightarrow>
          if \<not> setup_flag w then snd (system e init_cmd (w\<lparr>setup_flag := True\<rparr>))
          else w)"

text \<open>The constructor: the member initialisers, then \<^verbatim>\<open>init\<close>.\<close>

definition NetCtrl :: "platform \<Rightarrow> env \<Rightarrow> string \<Rightarrow> world \<Rightarrow> netctrl \<times> world" where
  "NetCtrl plat e name w =
     (\<lparr>rule_name = name, process_name = [], exe_path = [],
       blocked_pids_out = [], blocked_pids_in = [], blocked_cgroup = [],
       is_blocked_outbound = False, is_blocked_inbound = False\<rparr>,
      init plat e w)"

text \<open>\<^verbatim>\<open>if (inbound) is_blocked_inbound_ = true; else is_blocked_outbound_ = true;\<close>\<close>

definition mark_blocked :: "bool \<Rightarrow> netctrl \<Rightarrow> netctrl" where
  "mark_blocked inbound s =
     (if inbound then s\<lparr>is_blocked_inbound := True\<rparr> else s\<lparr>is_blocked_outbound := True\<rparr>)"

subsection \<open>Windows\<close>

text \<open>The walk over the snapshot in \<^verbatim>\<open>blockWindows\<close>: the first entry whose name
  contains the process name and whose path can be queried.\<close>

fun find_exe :: "string \<Rightarrow> (string \<times> string option) list \<Rightarrow> string option" where
  "find_exe proc_name [] = None"
| "find_exe proc_name ((name, path) # entries) =
     (if str_find name proc_name then
        (case path of Some p \<Rightarrow> Some p | None \<Rightarrow> find_exe proc_name entries)
      else find_exe proc_name entries)"

definition add_rule_cmd :: "netctrl \<Rightarrow> bool \<Rightarrow> string" where
  "add_rule_cmd s inbound =
     ''netsh advfirewall firewall add rule name='' @ [dquote] @ rule_name s @
     (if inbound then ''_in'' else ''_out'') @ [dquote] @ '' dir='' @
     (if inbound then ''in'' else ''out'') @ '' action=block program='' @ [dquote] @
     exe_path s @ [dquote] @ '' >nul 2>&1''"

text \<open>The first half of \<^verbatim>\<open>blockWindows\<close>: the executable path is looked up only while
  none is cached. The flag says whether the function goes on (\<open>false\<close> is one of its
  two early \<^verbatim>\<open>return false\<close>).\<close>

definition resolve_exe ::
  "env \<Rightarrow> string \<Rightarrow> netctrl \<Rightarrow> world \<Rightarrow> bool \<times> netctrl \<times> world" where
  "resolve_exe e proc_name s w =
     (if exe_path s = [] then
        (case snapshot e w of
           (None, w1) \<Rightarrow> (False, s, w1)
         | (Some entries, w1) \<Rightarrow>
             (case find_exe proc_name entries of
                None \<Rightarrow> (False, s, w1)
              | Some path \<Rightarrow>
                  (True, s\<lparr>exe_path := path, process_name := proc_name\<rparr>, w1)))
      else (True, s, w))"

definition blockWindows ::
  "env \<Rightarrow> string \<Rightarrow> bool \<Rightarrow> netctrl \<Rightarrow> world \<Rightarrow> bool \<times> netctrl \<times> world" where
  "blockWindows e proc_name inbound s w =
     (case resolve_exe e proc_name s w of
        (resolved, s1, w1) \<Rightarrow>
          if \<not> resolved then (False, s1, w1)
          else
            (case system e (add_rule_cmd s1 inbound) w1 of
               (rc, w2) \<Rightarrow>
                 if rc = 0 then (True, mark_blocked inbound s1, w2)
                 else (False, s1, w2)))"

definition delete_rule_cmd :: "netctrl \<Rightarrow> string \<Rightarrow> string" where
  "delete_rule_cmd s suffix =
     ''netsh advfirewall firewall delete rule name='' @ [dquote] @ rule_name s @ suffix @
     [dquote] @ '' >nul 2>&1''"

definition unblockWindows :: "env \<Rightarrow> netctrl \<Rightarrow> world \<Rightarrow> bool \<times> netctrl \<times> world" where
  "unblockWindows e s w =
     (let w1 = snd (system e (delete_rule_cmd s ''_out'') w);
          w2 = snd (system e (delete_rule_cmd s ''_in'') w1)
      in (True,
          s\<lparr>is_blocked_outbound := False, is_blocked_inbound := False, exe_path := []\<rparr>,
          w2))"

subsection \<open>Linux\<close>

text \<open>The flatpak check of \<^verbatim>\<open>blockLinux\<close>: the first line of the process's cgroup
  file; when it mentions \<^verbatim>\<open>flatpak\<close> or \<^verbatim>\<open>app-\<close> and has a colon, the text after the
  last colon, right-trimmed, becomes the cgroup key.\<close>

definition read_cgroup :: "env \<Rightarrow> int \<Rightarrow> netctrl \<Rightarrow> world \<Rightarrow> netctrl \<times> world" where
  "read_cgroup e pid s w =
     (case fopen e (''/proc/'' @ to_string pid @ ''/cgroup'') w of
        (None, w1) \<Rightarrow> (s, w1)
      | (Some text, w1) \<Rightarrow>
          (case fgets 512 text of
             None \<Rightarrow> (s, w1)
           | Some line \<Rightarrow>
               (let cgline = c_str line in
                if str_find cgline ''flatpak'' \<or> str_find cgline ''app-'' then
                  (case after_last_colon cgline of
                     None \<Rightarrow> (s, w1)
                   | Some rest \<Rightarrow> (s\<lparr>blocked_cgroup := rtrim rest\<rparr>, w1))
                else (s, w1))))"

definition chain_of :: "bool \<Rightarrow> string" where
  "chain_of inbound = (if inbound then ''NETCTRL_IN'' else ''NETCTRL_OUT'')"

definition cgroup_rule_cmd :: "string \<Rightarrow> string \<Rightarrow> string \<Rightarrow> string" where
  "cgroup_rule_cmd flag chain cg =
     ''iptables -w '' @ flag @ '' '' @ chain @ '' -m cgroup --path '' @ [dquote] @ cg @
     [dquote] @ '' -j DROP 2>/dev/null''"

definition pid_rule_cmd :: "string \<Rightarrow> string \<Rightarrow> int \<Rightarrow> string" where
  "pid_rule_cmd flag chain pid =
     ''iptables -w '' @ flag @ '' '' @ chain @ '' -m owner --pid-owner '' @ to_string pid @
     '' -j DROP 2>/dev/null''"

definition pgrep_cmd :: "string \<Rightarrow> string" where
  "pgrep_cmd proc_name = ''pgrep -x '' @ [squote] @ proc_name @ [squote]"

text \<open>The flatpak check runs only while neither a cgroup key nor a process name is
  cached, and then caches the process name.\<close>

definition check_flatpak ::
  "env \<Rightarrow> string \<Rightarrow> int \<Rightarrow> netctrl \<Rightarrow> world \<Rightarrow> netctrl \<times> world" where
  "check_flatpak e proc_name pid s w =
     (if blocked_cgroup s = [] \<and> process_name s = [] then
        (case read_cgroup e pid s w of
           (s1, w1) \<Rightarrow> (s1\<lparr>process_name := proc_name\<rparr>, w1))
      else (s, w))"

text \<open>\<^verbatim>\<open>if (inbound) blocked_pids_in_.insert(pid); else blocked_pids_out_.insert(pid);\<close>\<close>

definition record_pid :: "bool \<Rightarrow> int \<Rightarrow> netctrl \<Rightarrow> netctrl" where
  "record_pid inbound pid s =
     (if inbound then s\<lparr>blocked_pids_in := set_insert pid (blocked_pids_in s)\<rparr>
      else s\<lparr>blocked_pids_out := set_insert pid (blocked_pids_out s)\<rparr>)"

text \<open>The two ways of adding the rule; the flag is the local \<^verbatim>\<open>found\<close>.\<close>

definition block_by_cgroup ::
  "env \<Rightarrow> bool \<Rightarrow> netctrl \<Rightarrow> world \<Rightarrow> bool \<times> netctrl \<times> world" where
  "block_by_cgroup e inbound s w =
     (case system e (cgroup_rule_cmd ''-A'' (chain_of inbound) (blocked_cgroup s)) w of
        (rc, w1) \<Rightarrow> if rc = 0 then (True, s, w1) else (False, s, w1))"

definition block_by_pid ::
  "env \<Rightarrow> bool \<Rightarrow> int \<Rightarrow> netctrl \<Rightarrow> world \<Rightarrow> bool \<times> netctrl \<times> world" where
  "block_by_pid e inbound pid s w =
     (case system e (pid_rule_cmd ''-A'' (chain_of inbound) pid) w of
        (rc, w1) \<Rightarrow>
          if rc = 0 then (True, record_pid inbound pid s, w1) else (False, s, w1))"

definition blockLinux ::
  "env \<Rightarrow> string \<Rightarrow> bool \<Rightarrow> netctrl \<Rightarrow> world \<Rightarrow> bool \<times> netctrl \<times> world" where
  "blockLinux e proc_name inbound s w =
     (case popen e (pgrep_cmd proc_name) w of
        (None, w1) \<Rightarrow> (False, s, w1)
      | (Some out, w1) \<Rightarrow>
          (case (case fgets 32 out of
                   None \<Rightarrow> (False, s, w1)
                 | Some buf \<Rightarrow>
                     (let pid = atoi buf in
                      if pid > 0 then
                        (case check_flatpak e proc_name pid s w1 of
                           (s2, w2) \<Rightarrow>
                             if blocked_cgroup s2 \<noteq> [] then block_by_cgroup e inbound s2 w2
                             else block_by_pid e inbound pid s2 w2)
                      else (False, s, w1))) of
             (found, s3, w3) \<Rightarrow>
               (found, (if found then mark_blocked inbound s3 else s3), w3)))"

text \<open>\<^verbatim>\<open>blockLinux\<close> as far as its \<^verbatim>\<open>pclose(pipe)\<close>: nothing when \<^verbatim>\<open>popen\<close> failed and
  the function has returned already, otherwise the local \<^verbatim>\<open>found\<close>, the members and the
  world at that statement. The PID is inserted by then; the direction's flag is set only
  after it.\<close>

definition at_pclose ::
  "env \<Rightarrow> string \<Rightarrow> bool \<Rightarrow> netctrl \<Rightarrow> world \<Rightarrow> (bool \<times> netctrl \<times> world) option" where
  "at_pclose e proc_name inbound s w =
     (case popen e (pgrep_cmd proc_name) w of
        (None, w1) \<Rightarrow> None
      | (Some out, w1) \<Rightarrow>
          Some (case fgets 32 out of
                  None \<Rightarrow> (False, s, w1)
                | Some buf \<Rightarrow>
                    (let pid = atoi buf in
                     if pid > 0 then
                       (case check_flatpak e proc_name pid s w1 of
                          (s2, w2) \<Rightarrow>
                            if blocked_cgroup s2 \<noteq> [] then block_by_cgroup e inbound s2 w2
                            else block_by_pid e inbound pid s2 w2)
                     else (False, s, w1))))"

definition unblockLinux :: "env \<Rightarrow> netctrl \<Rightarrow> world \<Rightarrow> bool \<times> netctrl \<times> world" where
  "unblockLinux e s w =
     (let w1 =
            (if blocked_cgroup s \<noteq> [] then
               snd (system e (cgroup_rule_cmd ''-D'' ''NETCTRL_IN'' (blocked_cgroup s))
                 (snd (system e (cgroup_rule_cmd ''-D'' ''NETCTRL_OUT'' (blocked_cgroup s)) w)))
             else w);
          w2 = system_each e (map (pid_rule_cmd ''-D'' ''NETCTRL_OUT'') (blocked_pids_out s)) w1;
          w3 = system_each e (map (pid_rule_cmd ''-D'' ''NETCTRL_IN'') (blocked_pids_in s)) w2
      in (True,
          s\<lparr>blocked_cgroup := [], blocked_pids_out := [], blocked_pids_in := [],
            is_blocked_outbound := False, is_blocked_inbound := False,
            process_name := []\<rparr>,
          w3))"

subsection \<open>The public interface\<close>

definition blockDirection ::
  "platform \<Rightarrow> env \<Rightarrow> string \<Rightarrow> bool \<Rightarrow> netctrl \<Rightarrow> world \<Rightarrow> bool \<times> netctrl \<times> world" where
  "blockDirection plat e proc_name inbound s w =
     (case plat of
        Windows \<Rightarrow> blockWindows e proc_name inbound s w
      | Linux \<Rightarrow> blockLinux e proc_name inbound s w)"

definition blockOutbound ::
  "platform \<Rightarrow> env \<Rightarrow> string \<Rightarrow> netctrl \<Rightarrow> world \<Rightarrow> bool \<times> netctrl \<times> world" where
  "blockOutbound plat e proc_name s w = blockDirection plat e proc_name False s w"

definition blockInbound ::
  "platform \<Rightarrow> env \<Rightarrow> string \<Rightarrow> netctrl \<Rightarrow> world \<Rightarrow> bool \<times> netctrl \<times> world" where
  "blockInbound plat e proc_name s w = blockDirection plat e proc_name True s w"

definition block ::
  "platform \<Rightarrow> env \<Rightarrow> string \<Rightarrow> netctrl \<Rightarrow> world \<Rightarrow> bool \<times> netctrl \<times> world" where
  "block plat e proc_name s w =
     (case blockOutbound plat e proc_name s w of
        (out, s1, w1) \<Rightarrow>
          (case blockInbound plat e proc_name s1 w1 of
             (inb, s2, w2) \<Rightarrow> (out \<and> inb, s2, w2)))"

definition unblock :: "platform \<Rightarrow> env \<Rightarrow> netctrl \<Rightarrow> world \<Rightarrow> bool \<times> netctrl \<times> world" where
  "unblock plat e s w =
     (if \<not> is_blocked_outbound s \<and> \<not> is_blocked_inbound s then (True, s, w)
      else (case plat of
              Windows \<Rightarrow> unblockWindows e s w
            | Linux \<Rightarrow> unblockLinux e s w))"

definition isBlocked :: "netctrl \<Rightarrow> bool" where
  "isBlocked s = (is_blocked_outbound s \<or> is_blocked_inbound s)"

definition isBlockedOutbound :: "netctrl \<Rightarrow> bool" where
  "isBlockedOutbound s = is_blocked_outbound s"

definition isBlockedInbound :: "netctrl \<Rightarrow> bool" where
  "isBlockedInbound s = is_blocked_inbound s"

text \<open>The destructor calls \<^verbatim>\<open>unblock\<close>; the object is gone afterwards, and the state it
  held at that moment is returned for inspection.\<close>

definition NetCtrl_destroy :: "platform \<Rightarrow> env \<Rightarrow> netctrl \<Rightarrow> world \<Rightarrow> netctrl \<times> world" where
  "NetCtrl_destroy plat e s w = snd (unblock plat e s w)"

section \<open>The lag and packet-loss controller (second \<^verbatim>\<open>netctrl.hpp\<close>)\<close>

text \<open>The private members of the second \<^verbatim>\<open>NetCtrl\<close>. Members of this class whose names
  the process blocker already uses carry the prefix \<open>lag_\<close>.\<close>

record lagctrl =
  is_active :: bool
  current_lag_ms :: int
  current_drop_percent :: double
  default_iface :: string

definition common_ifaces :: "string list" where
  "common_ifaces = [''eth0'', ''eno1'', ''enp0s3'', ''wlan0'', ''wlp2s0'']"

text \<open>The loop over the common interface names: the first one that \<^verbatim>\<open>ip link show\<close>
  accepts is taken.\<close>

fun try_common :: "env \<Rightarrow> string list \<Rightarrow> lagctrl \<Rightarrow> world \<Rightarrow> lagctrl \<times> world" where
  "try_common e [] s w = (s, w)"
| "try_common e (iface # rest) s w =
     (case system e (''ip link show '' @ iface @ '' 2>/dev/null'') w of
        (rc, w1) \<Rightarrow>
          if rc = 0 then (s\<lparr>default_iface := iface\<rparr>, w1) else try_common e rest s w1)"

definition ip_route_cmd :: string where
  "ip_route_cmd =
     ''ip route show default | awk '' @ [squote] @ ''/default/ {print $5}'' @ [squote] @
     '' | head -1''"

definition findInterface :: "platform \<Rightarrow> env \<Rightarrow> lagctrl \<Rightarrow> world \<Rightarrow> lagctrl \<times> world" where
  "findInterface plat e s w =
     (case plat of
        Windows \<Rightarrow> (s, w)
      | Linux \<Rightarrow>
          (case (case popen e ip_route_cmd w of
                   (None, w1) \<Rightarrow> (s, w1)
                 | (Some out, w1) \<Rightarrow>
                     (case fgets 64 out of
                        None \<Rightarrow> (s, w1)
                      | Some buf \<Rightarrow>
                          (let iface = c_str buf in
                           (s\<lparr>default_iface :=
                                (if iface \<noteq> [] \<and> last iface = newline then butlast iface
                                 else iface)\<rparr>,
                            w1)))) of
             (s1, w1) \<Rightarrow>
               if default_iface s1 = [] then try_common e common_ifaces s1 w1
               else (s1, w1)))"

text \<open>The constructor: the member initialisers, then \<^verbatim>\<open>findInterface\<close>.\<close>

definition LagCtrl :: "platform \<Rightarrow> env \<Rightarrow> world \<Rightarrow> lagctrl \<times> world" where
  "LagCtrl plat e w =
     findInterface plat e
       \<lparr>is_active = False, current_lag_ms = 0, current_drop_percent = Fin 0,
        default_iface = []\<rparr> w"

subsection \<open>Windows\<close>

definition netsh_add_cmd :: "string \<Rightarrow> string \<Rightarrow> string" where
  "netsh_add_cmd name dir =
     ''netsh advfirewall firewall add rule name='' @ [dquote] @ name @ [dquote] @
     '' dir='' @ dir @ '' action=block protocol=any''"

definition netsh_delete_cmd :: "string \<Rightarrow> string" where
  "netsh_delete_cmd name =
     ''netsh advfirewall firewall delete rule name='' @ [dquote] @ name @ [dquote] @
     '' >nul 2>&1''"

definition applyWindows ::
  "env \<Rightarrow> double \<Rightarrow> lagctrl \<Rightarrow> world \<Rightarrow> bool \<times> lagctrl \<times> world" where
  "applyWindows e drop_percent s w =
     (if double_ge drop_percent (Fin 100) then
        (case system e (netsh_add_cmd ''NetCtrl_OUT'' ''out'') w of
           (r1, w1) \<Rightarrow>
             (case system e (netsh_add_cmd ''NetCtrl_IN'' ''in'') w1 of
                (r2, w2) \<Rightarrow>
                  if r1 = 0 \<or> r2 = 0 then
                    (True, s\<lparr>is_active := True, current_drop_percent := Fin 100\<rparr>, w2)
                  else (False, s, w2)))
      else (False, s, w))"

definition disableWindows :: "env \<Rightarrow> lagctrl \<Rightarrow> world \<Rightarrow> bool \<times> lagctrl \<times> world" where
  "disableWindows e s w =
     (let w1 = snd (system e (netsh_delete_cmd ''NetCtrl_OUT'') w);
          w2 = snd (system e (netsh_delete_cmd ''NetCtrl_IN'') w1)
      in (True,
          s\<lparr>is_active := False, current_lag_ms := 0, current_drop_percent := Fin 0\<rparr>,
          w2))"

subsection \<open>Linux\<close>

definition tc_del_cmd :: "string \<Rightarrow> string" where
  "tc_del_cmd iface = ''tc qdisc del dev '' @ iface @ '' root 2>/dev/null &''"

definition iptables_del_cmd :: string where
  "iptables_del_cmd =
     ''iptables -w -D OUTPUT -j DROP 2>/dev/null & iptables -w -D INPUT -j DROP 2>/dev/null &''"

definition disableLinux :: "env \<Rightarrow> lagctrl \<Rightarrow> world \<Rightarrow> bool \<times> lagctrl \<times> world" where
  "disableLinux e s w =
     (let w1 = (if default_iface s \<noteq> [] then snd (system e (tc_del_cmd (default_iface s)) w)
                else w);
          w2 = snd (system e iptables_del_cmd w1)
      in (True,
          s\<lparr>is_active := False, current_lag_ms := 0, current_drop_percent := Fin 0\<rparr>,
          w2))"

definition lag_blockLinux :: "env \<Rightarrow> lagctrl \<Rightarrow> world \<Rightarrow> bool \<times> lagctrl \<times> world" where
  "lag_blockLinux e s w =
     (case disableLinux e s w of
        (_, s1, w1) \<Rightarrow>
          (let w2 = snd (system e ''iptables -w -I OUTPUT 1 -j DROP &'' w1);
               w3 = snd (system e ''iptables -w -I INPUT 1 -j DROP &'' w2)
           in (True,
               s1\<lparr>is_active := True, current_lag_ms := 0, current_drop_percent := Fin 100\<rparr>,
               w3)))"

text \<open>The command line \<^verbatim>\<open>applyLinux\<close> builds with its string stream. The stream's
  fixed-point formatting of a \<^verbatim>\<open>double\<close> with two decimals is the environment's
  \<open>format_fixed2\<close>.\<close>

definition tc_add_cmd :: "env \<Rightarrow> string \<Rightarrow> int \<Rightarrow> double \<Rightarrow> string" where
  "tc_add_cmd e iface lag_ms drop_percent =
     ''tc qdisc add dev '' @ iface @ '' root netem'' @
     (if lag_ms > 0 then '' delay '' @ to_string lag_ms @ ''ms'' else []) @
     (if double_gt drop_percent (Fin 0) then
        '' loss '' @ format_fixed2 e drop_percent @ ''%''
      else []) @
     '' 2>/dev/null &''"

definition applyLinux ::
  "env \<Rightarrow> int \<Rightarrow> double \<Rightarrow> lagctrl \<Rightarrow> world \<Rightarrow> bool \<times> lagctrl \<times> world" where
  "applyLinux e lag_ms drop_percent s w =
     (case disableLinux e s w of
        (_, s1, w1) \<Rightarrow>
          if default_iface s1 = [] then (False, s1, w1)
          else
            (let w2 = snd (system e (tc_add_cmd e (default_iface s1) lag_ms drop_percent) w1)
             in (True,
                 s1\<lparr>is_active := True, current_lag_ms := lag_ms,
                    current_drop_percent := drop_percent\<rparr>,
                 w2)))"

subsection \<open>The public interface\<close>

definition lag_block :: "platform \<Rightarrow> env \<Rightarrow> lagctrl \<Rightarrow> world \<Rightarrow> bool \<times> lagctrl \<times> world" where
  "lag_block plat e s w =
     (case plat of
        Windows \<Rightarrow> applyWindows e (Fin 100) s w
      | Linux \<Rightarrow> lag_blockLinux e s w)"

definition lag ::
  "platform \<Rightarrow> env \<Rightarrow> int \<Rightarrow> double \<Rightarrow> lagctrl \<Rightarrow> world \<Rightarrow> bool \<times> lagctrl \<times> world" where
  "lag plat e lag_ms drop_percent s w =
     (case plat of
        Windows \<Rightarrow> applyWindows e drop_percent s w
      | Linux \<Rightarrow> applyLinux e lag_ms drop_percent s w)"

definition disable :: "platform \<Rightarrow> env \<Rightarrow> lagctrl \<Rightarrow> world \<Rightarrow> bool \<times> lagctrl \<times> world" where
  "disable plat e s w =
     (case plat of
        Windows \<Rightarrow> disableWindows e s w
      | Linux \<Rightarrow> disableLinux e s w)"

definition isActive :: "lagctrl \<Rightarrow> bool" where
  "isActive s = is_active s"

definition getLag :: "lagctrl \<Rightarrow> int" where
  "getLag s = current_lag_ms s"

definition getDrop :: "lagctrl \<Rightarrow> double" where
  "getDrop s = current_drop_percent s"

text \<open>The destructor calls \<^verbatim>\<open>disable\<close>.\<close>

definition LagCtrl_destroy :: "platform \<Rightarrow> env \<Rightarrow> lagctrl \<Rightarrow> world \<Rightarrow> lagctrl \<times> world" where
  "LagCtrl_destroy plat e s w = snd (disable plat e s w)"

section \<open>The two command-line programs\<close>

text \<open>
  What a program meets while it waits at its prompt: a line of input, or a termination
  signal (SIGINT or SIGTERM), which runs \<^verbatim>\<open>cleanup\<close>. The end of the event list is the
  end of standard input. A signal that arrives in the middle of a library call is
  asynchronous and is outside this model. A run gives the exit code, the controller's
  last state (none when it was never constructed) and the world.
\<close>

datatype event = Line string | Signal

subsection \<open>The blocker's program (\<^verbatim>\<open>part_001\<close>)\<close>

text \<open>\<^verbatim>\<open>cleanup\<close>: unblock through the global pointer when it is set, then \<^verbatim>\<open>exit(0)\<close>.\<close>

definition cleanup_blocker ::
  "platform \<Rightarrow> env \<Rightarrow> netctrl option \<Rightarrow> world \<Rightarrow> int \<times> netctrl option \<times> world" where
  "cleanup_blocker plat e g_ctrl w =
     (case g_ctrl of
        None \<Rightarrow> (0, None, w)
      | Some s \<Rightarrow> (case unblock plat e s w of (_, s1, w1) \<Rightarrow> (0, Some s1, w1)))"

text \<open>A termination signal that is delivered while \<^verbatim>\<open>blockLinux\<close> waits in
  \<^verbatim>\<open>pclose\<close>: the handler runs \<^verbatim>\<open>cleanup\<close> on the controller as it is at that statement,
  and the process exits there.\<close>

definition signal_at_pclose ::
  "env \<Rightarrow> string \<Rightarrow> bool \<Rightarrow> netctrl \<Rightarrow> world \<Rightarrow> (int \<times> netctrl option \<times> world) option" where
  "signal_at_pclose e proc_name inbound s w =
     (case at_pclose e proc_name inbound s w of
        None \<Rightarrow> None
      | Some (found, s1, w1) \<Rightarrow> Some (cleanup_blocker Linux e (Some s1) w1))"

text \<open>After the loop: \<^verbatim>\<open>ctrl.unblock(); return 0;\<close>, and the destructor of \<^verbatim>\<open>ctrl\<close>.\<close>

definition finish_blocker ::
  "platform \<Rightarrow> env \<Rightarrow> netctrl \<Rightarrow> world \<Rightarrow> int \<times> netctrl option \<times> world" where
  "finish_blocker plat e s w =
     (case unblock plat e s w of
        (_, s1, w1) \<Rightarrow>
          (case NetCtrl_destroy plat e s1 w1 of (s2, w2) \<Rightarrow> (0, Some s2, w2)))"

text \<open>The chain of comparisons in the loop body, on the trimmed, non-empty command:
  \<open>None\<close> is \<^verbatim>\<open>break\<close>, otherwise the state the next iteration starts from.\<close>

definition dispatch_blocker ::
  "platform \<Rightarrow> env \<Rightarrow> string \<Rightarrow> string \<Rightarrow> netctrl \<Rightarrow> world \<Rightarrow> (netctrl \<times> world) option" where
  "dispatch_blocker plat e target cmd s w =
     (if cmd = ''block-out'' \<or> cmd = ''bo'' then
        (if isBlockedOutbound s then Some (s, w)
         else Some (snd (blockOutbound plat e target s w)))
      else if cmd = ''block-in'' \<or> cmd = ''bi'' then
        (if isBlockedInbound s then Some (s, w)
         else Some (snd (blockInbound plat e target s w)))
      else if cmd = ''block'' \<or> cmd = ''b'' then
        (if isBlockedOutbound s \<and> isBlockedInbound s then Some (s, w)
         else Some (snd (block plat e target s w)))
      else if cmd = ''unblock'' \<or> cmd = ''u'' then
        (if \<not> isBlocked s then Some (s, w)
         else Some (snd (unblock plat e s w)))
      else if cmd = ''status'' \<or> cmd = ''s'' then Some (s, w)
      else if cmd = ''quit'' \<or> cmd = ''q'' \<or> cmd = ''exit'' then None
      else Some (s, w))"

fun run_blocker ::
  "platform \<Rightarrow> env \<Rightarrow> string \<Rightarrow> event list \<Rightarrow> netctrl \<Rightarrow> world \<Rightarrow>
   int \<times> netctrl option \<times> world" where
  "run_blocker plat e target [] s w = finish_blocker plat e s w"
| "run_blocker plat e target (Signal # evs) s w = cleanup_blocker plat e (Some s) w"
| "run_blocker plat e target (Line l # evs) s w =
     (let cmd = rtrim (ltrim l) in
      if cmd = [] then run_blocker plat e target evs s w
      else
        (case dispatch_blocker plat e target cmd s w of
           None \<Rightarrow> finish_blocker plat e s w
         | Some (s1, w1) \<Rightarrow> run_blocker plat e target evs s1 w1))"

text \<open>\<^verbatim>\<open>main\<close>: \<open>argv\<close> is the whole argument vector, program name first.\<close>

definition main_blocker ::
  "platform \<Rightarrow> env \<Rightarrow> string list \<Rightarrow> event list \<Rightarrow> world \<Rightarrow>
   int \<times> netctrl option \<times> world" where
  "main_blocker plat e argv evs w =
     (if \<not> is_admin e then (1, None, w)
      else
        (let target = (if length argv > 1 then argv ! 1 else ''sober'') in
         case NetCtrl plat e ''netctrl'' w of
           (ctrl, w1) \<Rightarrow> run_blocker plat e target evs ctrl w1))"

subsection \<open>The lag controller's program (\<^verbatim>\<open>part_000\<close>)\<close>

definition cleanup_lag ::
  "platform \<Rightarrow> env \<Rightarrow> lagctrl option \<Rightarrow> world \<Rightarrow> int \<times> lagctrl option \<times> world" where
  "cleanup_lag plat e g_ctrl w =
     (case g_ctrl of
        None \<Rightarrow> (0, None, w)
      | Some s \<Rightarrow> (case disable plat e s w of (_, s1, w1) \<Rightarrow> (0, Some s1, w1)))"

definition finish_lag ::
  "platform \<Rightarrow> env \<Rightarrow> lagctrl \<Rightarrow> world \<Rightarrow> int \<times> lagctrl option \<times> world" where
  "finish_lag plat e s w =
     (case disable plat e s w of
        (_, s1, w1) \<Rightarrow>
          (case LagCtrl_destroy plat e s1 w1 of (s2, w2) \<Rightarrow> (0, Some s2, w2)))"

text \<open>\<^verbatim>\<open>iss >> cmd\<close>: the first white-space delimited word of the line (empty when there
  is none), and what the stream still holds after it. The extraction
  \<^verbatim>\<open>iss >> ms >> pct\<close> from that rest is the environment's \<open>parse_int_double\<close>.\<close>

definition first_word :: "string \<Rightarrow> string" where
  "first_word l = takeWhile (\<lambda>c. \<not> isspace c) (dropWhile isspace l)"

definition after_first_word :: "string \<Rightarrow> string" where
  "after_first_word l = dropWhile (\<lambda>c. \<not> isspace c) (dropWhile isspace l)"

definition dispatch_lag ::
  "platform \<Rightarrow> env \<Rightarrow> string \<Rightarrow> lagctrl \<Rightarrow> world \<Rightarrow> (lagctrl \<times> world) option" where
  "dispatch_lag plat e l s w =
     (let cmd = first_word l in
      if cmd = ''block'' \<or> cmd = ''b'' then Some (snd (lag_block plat e s w))
      else if cmd = ''lag'' \<or> cmd = ''l'' then
        (case parse_int_double e (after_first_word l) of
           Some (ms, pct) \<Rightarrow> Some (snd (lag plat e ms pct s w))
         | None \<Rightarrow> Some (s, w))
      else if cmd = ''off'' \<or> cmd = ''disable'' \<or> cmd = ''d'' then
        Some (snd (disable plat e s w))
      else if cmd = ''status'' \<or> cmd = ''s'' then Some (s, w)
      else if cmd = ''quit'' \<or> cmd = ''q'' then None
      else Some (s, w))"

fun run_lag ::
  "platform \<Rightarrow> env \<Rightarrow> event list \<Rightarrow> lagctrl \<Rightarrow> world \<Rightarrow> int \<times> lagctrl option \<times> world" where
  "run_lag plat e [] s w = finish_lag plat e s w"
| "run_lag plat e (Signal # evs) s w = cleanup_lag plat e (Some s) w"
| "run_lag plat e (Line l # evs) s w =
     (case dispatch_lag plat e l s w of
        None \<Rightarrow> finish_lag plat e s w
      | Some (s1, w1) \<Rightarrow> run_lag plat e evs s1 w1)"

definition main_lag ::
  "platform \<Rightarrow> env \<Rightarrow> event list \<Rightarrow> world \<Rightarrow> int \<times> lagctrl option \<times> world" where
  "main_lag plat e evs w =
     (if \<not> is_admin e then (1, None, w)
      else (case LagCtrl plat e w of (ctrl, w1) \<Rightarrow> run_lag plat e evs ctrl w1))"

section \<open>Properties: vocabulary\<close>

text \<open>The commands \<^verbatim>\<open>unblock\<close> is expected to issue, read off the recorded keys: on
  Windows the two rule names, on Linux the cgroup key in both chains when there is one,
  then every recorded PID of each direction.\<close>

definition undo_cmds :: "platform \<Rightarrow> netctrl \<Rightarrow> string list" where
  "undo_cmds plat s =
     (case plat of
        Windows \<Rightarrow> [delete_rule_cmd s ''_out'', delete_rule_cmd s ''_in'']
      | Linux \<Rightarrow>
          (if blocked_cgroup s \<noteq> [] then
             [cgroup_rule_cmd ''-D'' ''NETCTRL_OUT'' (blocked_cgroup s),
              cgroup_rule_cmd ''-D'' ''NETCTRL_IN'' (blocked_cgroup s)]
           else []) @
          map (pid_rule_cmd ''-D'' ''NETCTRL_OUT'') (blocked_pids_out s) @
          map (pid_rule_cmd ''-D'' ''NETCTRL_IN'') (blocked_pids_in s))"

text \<open>The state \<^verbatim>\<open>unblock\<close> is expected to leave.\<close>

definition cleared :: "platform \<Rightarrow> netctrl \<Rightarrow> netctrl" where
  "cleared plat s =
     (case plat of
        Windows \<Rightarrow>
          s\<lparr>is_blocked_outbound := False, is_blocked_inbound := False, exe_path := []\<rparr>
      | Linux \<Rightarrow>
          s\<lparr>blocked_cgroup := [], blocked_pids_out := [], blocked_pids_in := [],
            is_blocked_outbound := False, is_blocked_inbound := False,
            process_name := []\<rparr>)"

text \<open>The commands \<^verbatim>\<open>disable\<close> is expected to issue.\<close>

definition disable_cmds :: "platform \<Rightarrow> lagctrl \<Rightarrow> string list" where
  "disable_cmds plat s =
     (case plat of
        Windows \<Rightarrow> [netsh_delete_cmd ''NetCtrl_OUT'', netsh_delete_cmd ''NetCtrl_IN'']
      | Linux \<Rightarrow>
          (if default_iface s \<noteq> [] then [tc_del_cmd (default_iface s)] else []) @
          [iptables_del_cmd])"

text \<open>The flag and the PID set of one direction.\<close>

definition flagged :: "bool \<Rightarrow> netctrl \<Rightarrow> bool" where
  "flagged inbound s = (if inbound then is_blocked_inbound s else is_blocked_outbound s)"

definition pids_of :: "bool \<Rightarrow> netctrl \<Rightarrow> int list" where
  "pids_of inbound s = (if inbound then blocked_pids_in s else blocked_pids_out s)"

text \<open>The process is resolved: on Windows a path is cached already, or the snapshot can
  be taken and holds an entry whose name contains the process name and whose path can
  be queried; on Linux \<^verbatim>\<open>pgrep\<close> can be started and its first line of output reads as a
  positive PID. The one external call that decides it comes first in every attempt that
  does not find the path cached.\<close>

definition resolves :: "platform \<Rightarrow> env \<Rightarrow> string \<Rightarrow> netctrl \<Rightarrow> world \<Rightarrow> bool" where
  "resolves plat e proc_name s w =
     (case plat of
        Windows \<Rightarrow>
          exe_path s \<noteq> [] \<or>
          (case snapshot_procs e (calls w) of
             None \<Rightarrow> False
           | Some entries \<Rightarrow> find_exe proc_name entries \<noteq> None)
      | Linux \<Rightarrow>
          (case popen_out e (calls w) (pgrep_cmd proc_name) of
             None \<Rightarrow> False
           | Some out \<Rightarrow>
               (case fgets 32 out of None \<Rightarrow> False | Some buf \<Rightarrow> atoi buf > 0)))"

definition resolution_call :: "platform \<Rightarrow> string \<Rightarrow> call" where
  "resolution_call plat proc_name =
     (case plat of Windows \<Rightarrow> Snapshot | Linux \<Rightarrow> Popen (pgrep_cmd proc_name))"

text \<open>Two states agree on everything but the cached resolution of the process (the
  executable path, the process name and the cgroup key).\<close>

definition same_ledger :: "netctrl \<Rightarrow> netctrl \<Rightarrow> bool" where
  "same_ledger s s1 =
     (rule_name s1 = rule_name s \<and>
      blocked_pids_out s1 = blocked_pids_out s \<and> blocked_pids_in s1 = blocked_pids_in s \<and>
      is_blocked_outbound s1 = is_blocked_outbound s \<and>
      is_blocked_inbound s1 = is_blocked_inbound s)"

text \<open>PIDs are recorded only on Linux, and only for a direction that is flagged as
  blocked.\<close>

definition ledger_inv :: "platform \<Rightarrow> netctrl \<Rightarrow> bool" where
  "ledger_inv plat s =
     ((blocked_pids_out s \<noteq> [] \<longrightarrow> plat = Linux \<and> is_blocked_outbound s) \<and>
      (blocked_pids_in s \<noteq> [] \<longrightarrow> plat = Linux \<and> is_blocked_inbound s))"

text \<open>Nothing is recorded as blocked: no flag, no PID.\<close>

definition nothing_blocked :: "netctrl \<Rightarrow> bool" where
  "nothing_blocked s = (\<not> isBlocked s \<and> blocked_pids_out s = [] \<and> blocked_pids_in s = [])"

text \<open>An inactive lag controller reports no lag and no drop.\<close>

definition lag_inv :: "lagctrl \<Rightarrow> bool" where
  "lag_inv s = (\<not> isActive s \<longrightarrow> getLag s = 0 \<and> getDrop s = Fin 0)"

definition lag_off :: "lagctrl \<Rightarrow> bool" where
  "lag_off s = (\<not> isActive s \<and> getLag s = 0 \<and> getDrop s = Fin 0)"

section \<open>Concrete environments\<close>

text \<open>A fresh process, and five environments: one where the target process runs under
  PID 4242 outside any flatpak and every command succeeds, one where the same process
  is found but every command fails, one where the process sits in a flatpak cgroup,
  with every command succeeding and with every command failing, and one where no
  process can be resolved (\<^verbatim>\<open>pgrep\<close> prints nothing, no path can be queried).\<close>

definition world0 :: world where
  "world0 = \<lparr>calls = [], setup_flag = False\<rparr>"

definition pgrep_out :: string where
  "pgrep_out = ''4242'' @ [newline]"

definition session_cgroup_line :: string where
  "session_cgroup_line = ''0::/user.slice/session-2.scope'' @ [newline]"

definition flatpak_cgroup_line :: string where
  "flatpak_cgroup_line = ''0::/user.slice/app-flatpak-sober.scope'' @ [newline]"

definition env_ok :: env where
  "env_ok =
     \<lparr>system_rc = (\<lambda>h c. 0),
      popen_out = (\<lambda>h c. if c = ip_route_cmd then Some (''eth0'' @ [newline])
                          else Some pgrep_out),
      fopen_out = (\<lambda>h c. Some session_cgroup_line),
      snapshot_procs = (\<lambda>h. Some [(''init.exe'', None),
                                  (''sober.exe'', Some ''C:/sober.exe'')]),
      is_admin = True,
      format_fixed2 = (\<lambda>d. ''50.00''),
      parse_int_double = (\<lambda>l. Some (100, Fin 50))\<rparr>"

definition env_fail :: env where
  "env_fail = env_ok\<lparr>system_rc := (\<lambda>h c. 1)\<rparr>"

definition env_flatpak :: env where
  "env_flatpak = env_ok\<lparr>fopen_out := (\<lambda>h c. Some flatpak_cgroup_line)\<rparr>"

definition env_missing :: env where
  "env_missing =
     env_ok\<lparr>popen_out := (\<lambda>h c. Some []),
            snapshot_procs := (\<lambda>h. Some [(''init.exe'', None), (''sober.exe'', None)])\<rparr>"

definition env_flatpak_fail :: env where
  "env_flatpak_fail = env_fail\<lparr>fopen_out := (\<lambda>h c. Some flatpak_cgroup_line)\<rparr>"

definition ctrl0 :: netctrl where
  "ctrl0 =
     \<lparr>rule_name = ''netctrl'', process_name = [], exe_path = [],
      blocked_pids_out = [], blocked_pids_in = [], blocked_cgroup = [],
      is_blocked_outbound = False, is_blocked_inbound = False\<rparr>"

definition lag0 :: lagctrl where
  "lag0 =
     \<lparr>is_active = False, current_lag_ms = 0, current_drop_percent = Fin 0,
      default_iface = ''eth0''\<rparr>"

text \<open>On Windows: the blocker once the process is resolved, the same with the outbound
  direction blocked, and the world after the first successful outbound block of a fresh
  controller.\<close>

definition ctrl_win :: netctrl where
  "ctrl_win = ctrl0\<lparr>exe_path := ''C:/sober.exe'', process_name := ''sober''\<rparr>"

definition ctrl_win_out :: netctrl where
  "ctrl_win_out = ctrl_win\<lparr>is_blocked_outbound := True\<rparr>"

definition world_win1 :: world where
  "world_win1 = \<lparr>calls = [Snapshot, System (add_rule_cmd ctrl_win False)], setup_flag = False\<rparr>"

text \<open>On Linux: the blocker once the flatpak check has found the cgroup key, once it
  has found none, the latter with PID 4242 blocked outbound, the worlds after the first
  and the second successful outbound block of a fresh controller, the blocker with the
  PID inserted and the flag not yet set, the flatpak blocker and world after a first
  successful outbound block, and the blocker with PID 4242 blocked in both
  directions.\<close>

definition ctrl_flatpak :: netctrl where
  "ctrl_flatpak =
     ctrl0\<lparr>blocked_cgroup := ''/user.slice/app-flatpak-sober.scope'',
           process_name := ''sober''\<rparr>"

definition ctrl_pid :: netctrl where
  "ctrl_pid = ctrl0\<lparr>process_name := ''sober''\<rparr>"

definition ctrl_pid_out :: netctrl where
  "ctrl_pid_out = ctrl_pid\<lparr>blocked_pids_out := [4242], is_blocked_outbound := True\<rparr>"

definition world_linux1 :: world where
  "world_linux1 =
     \<lparr>calls = [Popen (pgrep_cmd ''sober''), Fopen ''/proc/4242/cgroup'',
               System (pid_rule_cmd ''-A'' ''NETCTRL_OUT'' 4242)],
      setup_flag = False\<rparr>"

definition world_linux2 :: world where
  "world_linux2 =
     world_linux1\<lparr>calls := calls world_linux1 @
       [Popen (pgrep_cmd ''sober''), System (pid_rule_cmd ''-A'' ''NETCTRL_OUT'' 4242)]\<rparr>"

definition ctrl_pid_recorded :: netctrl where
  "ctrl_pid_recorded = ctrl_pid\<lparr>blocked_pids_out := [4242]\<rparr>"

definition ctrl_flatpak_out :: netctrl where
  "ctrl_flatpak_out = ctrl_flatpak\<lparr>is_blocked_outbound := True\<rparr>"

definition world_flatpak1 :: world where
  "world_flatpak1 =
     \<lparr>calls = [Popen (pgrep_cmd ''sober''), Fopen ''/proc/4242/cgroup'',
               System (cgroup_rule_cmd ''-A'' ''NETCTRL_OUT''
                         ''/user.slice/app-flatpak-sober.scope'')],
      setup_flag = False\<rparr>"

definition ctrl_pid_both :: netctrl where
  "ctrl_pid_both = ctrl_pid_out\<lparr>blocked_pids_in := [4242], is_blocked_inbound := True\<rparr>"

section \<open>What the operations compute\<close>

lemma system_each_calls:
  "system_each e cmds w = w\<lparr>calls := calls w @ map System cmds\<rparr>"
  by (induction cmds arbitrary: w) (simp_all add: system_def)

lemma unblockLinux_eq:
  "unblockLinux e s w =
     (True, cleared Linux s, w\<lparr>calls := calls w @ map System (undo_cmds Linux s)\<rparr>)"
  by (simp add: unblockLinux_def cleared_def undo_cmds_def system_each_calls system_def Let_def)

lemma unblockWindows_eq:
  "unblockWindows e s w =
     (True, cleared Windows s, w\<lparr>calls := calls w @ map System (undo_cmds Windows s)\<rparr>)"
  by (simp add: unblockWindows_def cleared_def undo_cmds_def system_def Let_def)

lemma unblock_eq:
  "isBlocked s \<Longrightarrow>
   unblock plat e s w =
     (True, cleared plat s, w\<lparr>calls := calls w @ map System (undo_cmds plat s)\<rparr>)"
  by (cases plat) (auto simp: unblock_def isBlocked_def unblockLinux_eq unblockWindows_eq)

lemma unblock_noop: "\<not> isBlocked s \<Longrightarrow> unblock plat e s w = (True, s, w)"
  by (simp add: unblock_def isBlocked_def)

lemma unblock_true: "fst (unblock plat e s w) = True"
  by (cases "isBlocked s") (simp_all add: unblock_eq unblock_noop)

lemma disable_eq:
  "disable plat e s w =
     (True, s\<lparr>is_active := False, current_lag_ms := 0, current_drop_percent := Fin 0\<rparr>,
      w\<lparr>calls := calls w @ map System (disable_cmds plat s)\<rparr>)"
  by (cases plat)
     (simp_all add: disable_def disableWindows_def disableLinux_def disable_cmds_def
        system_def Let_def)

lemma lag_blockLinux_eq:
  "lag_blockLinux e s w =
     (True, s\<lparr>is_active := True, current_lag_ms := 0, current_drop_percent := Fin 100\<rparr>,
      w\<lparr>calls := calls w @ map System (disable_cmds Linux s @
          [''iptables -w -I OUTPUT 1 -j DROP &'', ''iptables -w -I INPUT 1 -j DROP &''])\<rparr>)"
  by (simp add: lag_blockLinux_def disableLinux_def disable_cmds_def system_def Let_def)

lemma applyLinux_eq:
  "default_iface s \<noteq> [] \<Longrightarrow>
   applyLinux e lag_ms drop_percent s w =
     (True,
      s\<lparr>is_active := True, current_lag_ms := lag_ms, current_drop_percent := drop_percent\<rparr>,
      w\<lparr>calls := calls w @ map System (disable_cmds Linux s @
          [tc_add_cmd e (default_iface s) lag_ms drop_percent])\<rparr>)"
  by (simp add: applyLinux_def disableLinux_def disable_cmds_def system_def Let_def)

lemma not_ge_of_lt_100: "double_lt d (Fin 100) \<Longrightarrow> \<not> double_ge d (Fin 100)"
  by (cases d) (auto simp: double_lt_def double_gt_def)

section \<open>The shape of a block attempt\<close>

text \<open>Every attempt makes at least one external call. Either it ends before any rule
  command, returns \<open>false\<close> and leaves the controller alone; or it ends with the
  add-rule command, returns whether that command exited with status 0, and has changed
  at most the cached resolution, plus, on success, the flag and the PID of the
  direction.\<close>

lemma read_cgroup_shape:
  "read_cgroup e pid s w = (s1, w1) \<Longrightarrow>
     calls w1 = calls w @ [Fopen (''/proc/'' @ to_string pid @ ''/cgroup'')] \<and>
     same_ledger s s1"
  by (auto simp: read_cgroup_def fopen_def same_ledger_def Let_def
        split: option.splits if_splits)

lemma check_flatpak_shape:
  "check_flatpak e p pid s w = (s1, w1) \<Longrightarrow>
     same_ledger s s1 \<and> (\<exists>pre. calls w1 = calls w @ pre)"
  by (auto simp: check_flatpak_def same_ledger_def split: if_splits prod.splits
        dest!: read_cgroup_shape)

lemma resolve_exe_shape:
  "resolve_exe e p s w = (r, s1, w1) \<Longrightarrow>
     same_ledger s s1 \<and> (\<not> r \<longrightarrow> s1 = s \<and> calls w1 = calls w @ [Snapshot]) \<and>
     (\<exists>pre. calls w1 = calls w @ pre)"
  by (auto simp: resolve_exe_def snapshot_def same_ledger_def
        split: if_splits option.splits)

lemma blockWindows_shape:
  assumes "blockWindows e p inbound s w = (r, s1, w1)"
  shows "\<exists>pre. pre \<noteq> [] \<and> calls w1 = calls w @ pre \<and>
           ((\<not> r \<and> s1 = s \<and> (\<forall>cmd. last pre \<noteq> System cmd)) \<or>
            (\<exists>s2. same_ledger s s2 \<and>
               last pre = System (add_rule_cmd s2 inbound) \<and>
               r = (system_rc e (calls w @ butlast pre) (add_rule_cmd s2 inbound) = 0) \<and>
               s1 = (if r then mark_blocked inbound s2 else s2)))"
proof -
  obtain ok s2 w2 where res: "resolve_exe e p s w = (ok, s2, w2)"
    by (cases "resolve_exe e p s w") auto
  from resolve_exe_shape [OF res] obtain pre where
    sl: "same_ledger s s2" and nok: "\<not> ok \<longrightarrow> s2 = s \<and> calls w2 = calls w @ [Snapshot]"
    and pre: "calls w2 = calls w @ pre"
    by blast
  show ?thesis
  proof (cases ok)
    case False
    with assms res nok show ?thesis
      by (intro exI [of _ "[Snapshot]"]) (auto simp: blockWindows_def)
  next
    case True
    with assms res sl pre show ?thesis
      by (intro exI [of _ "pre @ [System (add_rule_cmd s2 inbound)]"])
         (auto simp: blockWindows_def system_def split: if_splits)
  qed
qed

lemma block_by_cgroup_shape:
  "block_by_cgroup e inbound s w = (r, s1, w1) \<Longrightarrow>
     s1 = s \<and> calls w1 = calls w @ [System (cgroup_rule_cmd ''-A'' (chain_of inbound) (blocked_cgroup s))] \<and>
     r = (system_rc e (calls w) (cgroup_rule_cmd ''-A'' (chain_of inbound) (blocked_cgroup s)) = 0)"
  by (auto simp: block_by_cgroup_def system_def split: if_splits)

lemma block_by_pid_shape:
  "block_by_pid e inbound pid s w = (r, s1, w1) \<Longrightarrow>
     s1 = (if r then record_pid inbound pid s else s) \<and>
     calls w1 = calls w @ [System (pid_rule_cmd ''-A'' (chain_of inbound) pid)] \<and>
     r = (system_rc e (calls w) (pid_rule_cmd ''-A'' (chain_of inbound) pid) = 0)"
  by (auto simp: block_by_pid_def system_def record_pid_def split: if_splits)

lemma blockLinux_shape:
  assumes "blockLinux e p inbound s w = (r, s1, w1)"
  shows "\<exists>pre. pre \<noteq> [] \<and> calls w1 = calls w @ pre \<and>
           ((\<not> r \<and> s1 = s \<and> (\<forall>cmd. last pre \<noteq> System cmd)) \<or>
            (\<exists>s2 cmd. same_ledger s s2 \<and> last pre = System cmd \<and>
               r = (system_rc e (calls w @ butlast pre) cmd = 0) \<and>
               ((blocked_cgroup s2 \<noteq> [] \<and>
                 cmd = cgroup_rule_cmd ''-A'' (chain_of inbound) (blocked_cgroup s2) \<and>
                 s1 = (if r then mark_blocked inbound s2 else s2)) \<or>
                (\<exists>pid. blocked_cgroup s2 = [] \<and>
                   cmd = pid_rule_cmd ''-A'' (chain_of inbound) pid \<and>
                   s1 = (if r then mark_blocked inbound (record_pid inbound pid s2)
                         else s2)))))"
proof (cases "popen_out e (calls w) (pgrep_cmd p)")
  case None
  with assms show ?thesis
    by (intro exI [of _ "[Popen (pgrep_cmd p)]"]) (auto simp: blockLinux_def popen_def)
next
  case (Some out)
  note out = this
  show ?thesis
  proof (cases "fgets 32 out")
    case None
    with out assms show ?thesis
      by (intro exI [of _ "[Popen (pgrep_cmd p)]"]) (auto simp: blockLinux_def popen_def)
  next
    case (Some buf)
    note buf = this
    show ?thesis
    proof (cases "atoi buf > 0")
      case False
      with out buf assms show ?thesis
        by (intro exI [of _ "[Popen (pgrep_cmd p)]"]) (auto simp: blockLinux_def popen_def)
    next
      case True
      let ?w1 = "w\<lparr>calls := calls w @ [Popen (pgrep_cmd p)]\<rparr>"
      obtain s2 w2 where cf: "check_flatpak e p (atoi buf) s ?w1 = (s2, w2)"
        by (cases "check_flatpak e p (atoi buf) s ?w1") auto
      from check_flatpak_shape [OF cf] obtain pre where
        sl: "same_ledger s s2" and pre: "calls w2 = calls w @ Popen (pgrep_cmd p) # pre"
        by auto
      show ?thesis
      proof (cases "blocked_cgroup s2 = []")
        case False
        obtain f s3 w3 where bc: "block_by_cgroup e inbound s2 w2 = (f, s3, w3)"
          by (cases "block_by_cgroup e inbound s2 w2") auto
        from assms out buf True cf False bc
        have fin: "r = f" "s1 = (if f then mark_blocked inbound s3 else s3)" "w1 = w3"
          by (auto simp: blockLinux_def popen_def Let_def)
        from block_by_cgroup_shape [OF bc] fin sl pre False show ?thesis
          by (intro exI [of _ "Popen (pgrep_cmd p) # pre @
                [System (cgroup_rule_cmd ''-A'' (chain_of inbound) (blocked_cgroup s2))]"])
             (auto simp: butlast_append)
      next
        case cg: True
        obtain f s3 w3 where bp: "block_by_pid e inbound (atoi buf) s2 w2 = (f, s3, w3)"
          by (cases "block_by_pid e inbound (atoi buf) s2 w2") auto
        from assms out buf True cf cg bp
        have fin: "r = f" "s1 = (if f then mark_blocked inbound s3 else s3)" "w1 = w3"
          by (auto simp: blockLinux_def popen_def Let_def)
        from block_by_pid_shape [OF bp] fin sl pre cg show ?thesis
          by (intro exI [of _ "Popen (pgrep_cmd p) # pre @
                [System (pid_rule_cmd ''-A'' (chain_of inbound) (atoi buf))]"])
             (auto simp: butlast_append)
      qed
    qed
  qed
qed

section \<open>The lag controller's invariant\<close>

lemma try_common_fields:
  "is_active (fst (try_common e ifs s w)) = is_active s \<and>
   current_lag_ms (fst (try_common e ifs s w)) = current_lag_ms s \<and>
   current_drop_percent (fst (try_common e ifs s w)) = current_drop_percent s"
  by (induction ifs arbitrary: w) (simp_all add: system_def)

lemma findInterface_fields:
  "is_active (fst (findInterface plat e s w)) = is_active s \<and>
   current_lag_ms (fst (findInterface plat e s w)) = current_lag_ms s \<and>
   current_drop_percent (fst (findInterface plat e s w)) = current_drop_percent s"
  by (cases plat)
     (auto simp: findInterface_def popen_def try_common_fields Let_def
        split: option.splits prod.splits)

lemma LagCtrl_off: "lag_off (fst (LagCtrl plat e w))"
  by (simp add: LagCtrl_def lag_off_def isActive_def getLag_def getDrop_def
        findInterface_fields)

lemma disable_off: "lag_off (fst (snd (disable plat e s w)))"
  by (simp add: disable_eq lag_off_def isActive_def getLag_def getDrop_def)

lemma lag_off_inv: "lag_off s \<Longrightarrow> lag_inv s"
  by (simp add: lag_off_def lag_inv_def)

lemma lag_block_inv: "lag_inv s \<Longrightarrow> lag_inv (fst (snd (lag_block plat e s w)))"
  by (cases plat)
     (auto simp: lag_block_def applyWindows_def lag_blockLinux_eq system_def lag_inv_def
        isActive_def getLag_def getDrop_def split: prod.splits)

lemma lag_inv_step: "lag_inv s \<Longrightarrow> lag_inv (fst (snd (lag plat e ms d s w)))"
  by (cases plat)
     (auto simp: lag_def applyWindows_def applyLinux_def disableLinux_def system_def Let_def
        lag_inv_def isActive_def getLag_def getDrop_def split: prod.splits)

section \<open>Exit codes of the two programs\<close>

lemma finish_blocker_exit: "fst (finish_blocker plat e s w) = 0"
  by (simp add: finish_blocker_def split: prod.splits)

lemma cleanup_blocker_exit: "fst (cleanup_blocker plat e g w) = 0"
  by (simp add: cleanup_blocker_def split: prod.splits option.splits)

lemma run_blocker_exit: "fst (run_blocker plat e target evs s w) = 0"
proof (induction evs arbitrary: s w)
  case Nil
  show ?case by (simp add: finish_blocker_exit)
next
  case (Cons ev evs)
  show ?case
  proof (cases ev)
    case Signal
    then show ?thesis by (simp add: cleanup_blocker_exit)
  next
    case (Line l)
    then show ?thesis
      by (simp add: Let_def finish_blocker_exit Cons.IH split: option.splits prod.splits)
  qed
qed

lemma finish_lag_exit: "fst (finish_lag plat e s w) = 0"
  by (simp add: finish_lag_def split: prod.splits)

lemma cleanup_lag_exit: "fst (cleanup_lag plat e g w) = 0"
  by (simp add: cleanup_lag_def split: prod.splits option.splits)

lemma run_lag_exit: "fst (run_lag plat e evs s w) = 0"
proof (induction evs arbitrary: s w)
  case Nil
  show ?case by (simp add: finish_lag_exit)
next
  case (Cons ev evs)
  show ?case
  proof (cases ev)
    case Signal
    then show ?thesis by (simp add: cleanup_lag_exit)
  next
    case (Line l)
    then show ?thesis
      by (simp add: finish_lag_exit Cons.IH split: option.splits prod.splits)
  qed
qed

section \<open>Both platforms at once\<close>

lemma last_calls_append:
  "pre \<noteq> [] \<Longrightarrow> calls w1 = calls w @ pre \<Longrightarrow>
     last (calls w1) = last pre \<and> butlast (calls w1) = calls w @ butlast pre"
  by (simp add: butlast_append)

lemma blockDirection_cases:
  assumes "blockDirection plat e p inbound s w = (r, s1, w1)"
  obtains
    (unresolved) "\<not> r" "s1 = s" "calls w1 \<noteq> []" "\<forall>cmd. last (calls w1) \<noteq> System cmd"
      "\<exists>pre. pre \<noteq> [] \<and> calls w1 = calls w @ pre"
  | (failed) s2 cmd where "\<not> r" "s1 = s2" "same_ledger s s2" "calls w1 \<noteq> []"
      "last (calls w1) = System cmd" "system_rc e (butlast (calls w1)) cmd \<noteq> 0"
      "\<exists>pre. pre \<noteq> [] \<and> calls w1 = calls w @ pre"
  | (applied) s2 cmd where "r" "same_ledger s s2" "calls w1 \<noteq> []"
      "last (calls w1) = System cmd" "system_rc e (butlast (calls w1)) cmd = 0"
      "\<exists>pre. pre \<noteq> [] \<and> calls w1 = calls w @ pre"
      "(s1 = mark_blocked inbound s2 \<and>
          (plat = Windows \<and> cmd = add_rule_cmd s2 inbound \<or>
           plat = Linux \<and> blocked_cgroup s2 \<noteq> [] \<and>
           cmd = cgroup_rule_cmd ''-A'' (chain_of inbound) (blocked_cgroup s2))) \<or>
       (\<exists>pid. plat = Linux \<and> blocked_cgroup s2 = [] \<and>
          s1 = mark_blocked inbound (record_pid inbound pid s2) \<and>
          cmd = pid_rule_cmd ''-A'' (chain_of inbound) pid)"
proof (cases plat)
  case Windows
  with assms have "blockWindows e p inbound s w = (r, s1, w1)"
    by (simp add: blockDirection_def)
  from blockWindows_shape [OF this] obtain pre where
    pre: "pre \<noteq> []" "calls w1 = calls w @ pre" and
    alt: "(\<not> r \<and> s1 = s \<and> (\<forall>cmd. last pre \<noteq> System cmd)) \<or>
            (\<exists>s2. same_ledger s s2 \<and>
               last pre = System (add_rule_cmd s2 inbound) \<and>
               r = (system_rc e (calls w @ butlast pre) (add_rule_cmd s2 inbound) = 0) \<and>
               s1 = (if r then mark_blocked inbound s2 else s2))"
    by blast
  from last_calls_append [OF pre] have lb:
    "last (calls w1) = last pre" "butlast (calls w1) = calls w @ butlast pre" by simp_all
  from pre have ne: "calls w1 \<noteq> []" by simp
  from pre have ex: "\<exists>pre. pre \<noteq> [] \<and> calls w1 = calls w @ pre" by blast
  from alt show ?thesis
  proof
    assume "\<not> r \<and> s1 = s \<and> (\<forall>cmd. last pre \<noteq> System cmd)"
    with lb ne ex show ?thesis by (intro unresolved) simp_all
  next
    assume "\<exists>s2. same_ledger s s2 \<and>
               last pre = System (add_rule_cmd s2 inbound) \<and>
               r = (system_rc e (calls w @ butlast pre) (add_rule_cmd s2 inbound) = 0) \<and>
               s1 = (if r then mark_blocked inbound s2 else s2)"
    then obtain s2 where s2: "same_ledger s s2"
        "last pre = System (add_rule_cmd s2 inbound)"
        "r = (system_rc e (calls w @ butlast pre) (add_rule_cmd s2 inbound) = 0)"
        "s1 = (if r then mark_blocked inbound s2 else s2)"
      by blast
    show ?thesis
    proof (cases r)
      case True
      with s2 lb ne ex Windows show ?thesis
        by (intro applied [of s2 "add_rule_cmd s2 inbound"]) simp_all
    next
      case False
      with s2 lb ne ex show ?thesis
        by (intro failed [of s2 "add_rule_cmd s2 inbound"]) simp_all
    qed
  qed
next
  case Linux
  with assms have "blockLinux e p inbound s w = (r, s1, w1)"
    by (simp add: blockDirection_def)
  from blockLinux_shape [OF this] obtain pre where
    pre: "pre \<noteq> []" "calls w1 = calls w @ pre" and
    alt: "(\<not> r \<and> s1 = s \<and> (\<forall>cmd. last pre \<noteq> System cmd)) \<or>
            (\<exists>s2 cmd. same_ledger s s2 \<and> last pre = System cmd \<and>
               r = (system_rc e (calls w @ butlast pre) cmd = 0) \<and>
               ((blocked_cgroup s2 \<noteq> [] \<and>
                 cmd = cgroup_rule_cmd ''-A'' (chain_of inbound) (blocked_cgroup s2) \<and>
                 s1 = (if r then mark_blocked inbound s2 else s2)) \<or>
                (\<exists>pid. blocked_cgroup s2 = [] \<and>
                   cmd = pid_rule_cmd ''-A'' (chain_of inbound) pid \<and>
                   s1 = (if r then mark_blocked inbound (record_pid inbound pid s2)
                         else s2))))"
    by blast
  from last_calls_append [OF pre] have lb:
    "last (calls w1) = last pre" "butlast (calls w1) = calls w @ butlast pre" by simp_all
  from pre have ne: "calls w1 \<noteq> []" by simp
  from pre have ex: "\<exists>pre. pre \<noteq> [] \<and> calls w1 = calls w @ pre" by blast
  from alt show ?thesis
  proof
    assume "\<not> r \<and> s1 = s \<and> (\<forall>cmd. last pre \<noteq> System cmd)"
    with lb ne ex show ?thesis by (intro unresolved) simp_all
  next
    assume "\<exists>s2 cmd. same_ledger s s2 \<and> last pre = System cmd \<and>
               r = (system_rc e (calls w @ butlast pre) cmd = 0) \<and>
               ((blocked_cgroup s2 \<noteq> [] \<and>
                 cmd = cgroup_rule_cmd ''-A'' (chain_of inbound) (blocked_cgroup s2) \<and>
                 s1 = (if r then mark_blocked inbound s2 else s2)) \<or>
                (\<exists>pid. blocked_cgroup s2 = [] \<and>
                   cmd = pid_rule_cmd ''-A'' (chain_of inbound) pid \<and>
                   s1 = (if r then mark_blocked inbound (record_pid inbound pid s2)
                         else s2)))"
    then obtain s2 cmd where s2: "same_ledger s s2" "last pre = System cmd"
        "r = (system_rc e (calls w @ butlast pre) cmd = 0)" and
      how: "(blocked_cgroup s2 \<noteq> [] \<and>
                 cmd = cgroup_rule_cmd ''-A'' (chain_of inbound) (blocked_cgroup s2) \<and>
                 s1 = (if r then mark_blocked inbound s2 else s2)) \<or>
                (\<exists>pid. blocked_cgroup s2 = [] \<and>
                   cmd = pid_rule_cmd ''-A'' (chain_of inbound) pid \<and>
                   s1 = (if r then mark_blocked inbound (record_pid inbound pid s2)
                         else s2))"
      by blast
    show ?thesis
    proof (cases r)
      case True
      with s2 how lb ne ex Linux show ?thesis
        by (intro applied [of s2 cmd]) auto
    next
      case False
      with s2 how lb ne ex show ?thesis
        by (intro failed [of s2 cmd]) auto
    qed
  qed
qed


lemma mark_blocked_simps:
  "flagged inbound (mark_blocked inbound s)"
  "flagged d s \<Longrightarrow> flagged d (mark_blocked inbound s)"
  "pids_of d (mark_blocked inbound s) = pids_of d s"
  "rule_name (mark_blocked inbound s) = rule_name s"
  "exe_path (mark_blocked inbound s) = exe_path s"
  "blocked_cgroup (mark_blocked inbound s) = blocked_cgroup s"
  by (simp_all add: mark_blocked_def flagged_def pids_of_def)

lemma record_pid_simps:
  "flagged d (record_pid inbound pid s) = flagged d s"
  "pids_of inbound (record_pid inbound pid s) = set_insert pid (pids_of inbound s)"
  "pids_of (\<not> inbound) (record_pid inbound pid s) = pids_of (\<not> inbound) s"
  "blocked_cgroup (record_pid inbound pid s) = blocked_cgroup s"
  "rule_name (record_pid inbound pid s) = rule_name s"
  by (simp_all add: record_pid_def flagged_def pids_of_def)

lemma same_ledger_simps:
  "same_ledger s s2 \<Longrightarrow> flagged d s2 = flagged d s"
  "same_ledger s s2 \<Longrightarrow> pids_of d s2 = pids_of d s"
  "same_ledger s s2 \<Longrightarrow> isBlocked s2 = isBlocked s"
  "same_ledger s s2 \<Longrightarrow> ledger_inv plat s2 = ledger_inv plat s"
  "same_ledger s s"
  by (simp_all add: same_ledger_def flagged_def pids_of_def isBlocked_def ledger_inv_def)

lemma set_insert_cases:
  "set_insert pid xs = xs \<or> (pid \<notin> set xs \<and> set_insert pid xs = insort pid xs)"
  by (simp add: set_insert_def set_insort_key)

lemma set_insert_member: "pid \<in> set (set_insert pid xs)"
  by (simp add: set_insert_def set_insort_key)

lemma block_result_iff:
  assumes "blockDirection plat e p inbound s w = (r, s1, w1)"
  shows "r = (\<exists>cmd. last (calls w1) = System cmd \<and> system_rc e (butlast (calls w1)) cmd = 0)"
  using assms by (cases rule: blockDirection_cases) auto

lemma block_false_ledger:
  assumes "blockDirection plat e p inbound s w = (False, s1, w1)"
  shows "same_ledger s s1 \<and> (s1 = s \<or> (\<exists>cmd. last (calls w1) = System cmd))"
  using assms by (cases rule: blockDirection_cases) (auto simp: same_ledger_simps)

lemma block_true_flagged:
  assumes "blockDirection plat e p inbound s w = (True, s1, w1)"
  shows "flagged inbound s1"
  using assms by (cases rule: blockDirection_cases) (auto simp: mark_blocked_simps)

lemma block_keeps_flag:
  assumes "blockDirection plat e p inbound s w = (r, s1, w1)" and "flagged d s"
  shows "flagged d s1"
  using assms
  by (cases rule: blockDirection_cases)
     (auto simp: mark_blocked_simps record_pid_simps same_ledger_simps)

lemma block_calls_grow:
  assumes "blockDirection plat e p inbound s w = (r, s1, w1)"
  shows "\<exists>pre. pre \<noteq> [] \<and> calls w1 = calls w @ pre"
  using assms by (cases rule: blockDirection_cases) auto

lemma block_pids:
  assumes "blockDirection plat e p inbound s w = (r, s1, w1)"
  shows "(pids_of inbound s1 = pids_of inbound s \<or>
          (\<exists>pid. pid \<notin> set (pids_of inbound s) \<and>
             pids_of inbound s1 = insort pid (pids_of inbound s))) \<and>
         pids_of (\<not> inbound) s1 = pids_of (\<not> inbound) s"
  using assms
proof (cases rule: blockDirection_cases)
  case unresolved
  then show ?thesis by simp
next
  case (failed s2 cmd)
  then show ?thesis by (simp add: same_ledger_simps)
next
  case (applied s2 cmd)
  from applied(7) show ?thesis
  proof
    assume "s1 = mark_blocked inbound s2 \<and>
      (plat = Windows \<and> cmd = add_rule_cmd s2 inbound \<or>
       plat = Linux \<and> blocked_cgroup s2 \<noteq> [] \<and>
       cmd = cgroup_rule_cmd ''-A'' (chain_of inbound) (blocked_cgroup s2))"
    with applied(2) show ?thesis by (simp add: mark_blocked_simps same_ledger_simps)
  next
    assume "\<exists>pid. plat = Linux \<and> blocked_cgroup s2 = [] \<and>
          s1 = mark_blocked inbound (record_pid inbound pid s2) \<and>
          cmd = pid_rule_cmd ''-A'' (chain_of inbound) pid"
    then obtain pid where "s1 = mark_blocked inbound (record_pid inbound pid s2)" by blast
    with applied(2) set_insert_cases [of pid "pids_of inbound s"] show ?thesis
      by (auto simp: mark_blocked_simps record_pid_simps same_ledger_simps)
  qed
qed

lemma mark_record_inv:
  "ledger_inv Linux s \<Longrightarrow> ledger_inv Linux (mark_blocked inbound (record_pid inbound pid s))"
  by (auto simp: ledger_inv_def mark_blocked_def record_pid_def)

lemma mark_inv: "ledger_inv plat s \<Longrightarrow> ledger_inv plat (mark_blocked inbound s)"
  by (auto simp: ledger_inv_def mark_blocked_def)

lemma block_inv:
  assumes "blockDirection plat e p inbound s w = (r, s1, w1)" and "ledger_inv plat s"
  shows "ledger_inv plat s1"
  using assms
  by (cases rule: blockDirection_cases)
     (auto simp: same_ledger_simps mark_inv mark_record_inv)

section \<open>Teardown\<close>

lemma nothing_blocked_inv: "nothing_blocked s \<Longrightarrow> ledger_inv plat s"
  by (simp add: nothing_blocked_def ledger_inv_def)

lemma cleared_clean: "ledger_inv plat s \<Longrightarrow> nothing_blocked (cleared plat s)"
  by (cases plat) (auto simp: cleared_def nothing_blocked_def isBlocked_def ledger_inv_def)

lemma unblock_clean: "ledger_inv plat s \<Longrightarrow> nothing_blocked (fst (snd (unblock plat e s w)))"
proof (cases "isBlocked s")
  case True
  assume "ledger_inv plat s"
  with True show ?thesis by (simp add: unblock_eq cleared_clean)
next
  case False
  assume "ledger_inv plat s"
  with False show ?thesis
    by (auto simp: unblock_noop nothing_blocked_def ledger_inv_def isBlocked_def)
qed

lemma unblock_inv: "ledger_inv plat s \<Longrightarrow> ledger_inv plat (fst (snd (unblock plat e s w)))"
  by (rule nothing_blocked_inv) (rule unblock_clean)

lemma destroy_clean: "ledger_inv plat s \<Longrightarrow> nothing_blocked (fst (NetCtrl_destroy plat e s w))"
  by (simp add: NetCtrl_destroy_def unblock_clean)

lemma cleanup_blocker_clean:
  "ledger_inv plat s \<Longrightarrow>
   \<exists>s'. fst (snd (cleanup_blocker plat e (Some s) w)) = Some s' \<and> nothing_blocked s'"
  using unblock_clean [of plat s e w]
  by (auto simp: cleanup_blocker_def split: prod.splits)

lemma finish_blocker_clean:
  "ledger_inv plat s \<Longrightarrow>
   \<exists>s'. fst (snd (finish_blocker plat e s w)) = Some s' \<and> nothing_blocked s'"
proof -
  assume inv: "ledger_inv plat s"
  obtain r s1 w1 where u: "unblock plat e s w = (r, s1, w1)"
    by (cases "unblock plat e s w") auto
  with unblock_inv [OF inv, of e w] have "ledger_inv plat s1" by simp
  from destroy_clean [OF this, of e w1] u show ?thesis
    by (auto simp: finish_blocker_def split: prod.splits)
qed

lemma blockOutbound_inv:
  "ledger_inv plat s \<Longrightarrow> ledger_inv plat (fst (snd (blockOutbound plat e p s w)))"
  using block_inv [of plat e p False s w]
  by (cases "blockDirection plat e p False s w") (auto simp: blockOutbound_def)

lemma blockInbound_inv:
  "ledger_inv plat s \<Longrightarrow> ledger_inv plat (fst (snd (blockInbound plat e p s w)))"
  using block_inv [of plat e p True s w]
  by (cases "blockDirection plat e p True s w") (auto simp: blockInbound_def)

lemma block_both_inv:
  "ledger_inv plat s \<Longrightarrow> ledger_inv plat (fst (snd (block plat e p s w)))"
proof -
  assume inv: "ledger_inv plat s"
  obtain r1 s1 w1 where o: "blockOutbound plat e p s w = (r1, s1, w1)"
    by (cases "blockOutbound plat e p s w") auto
  with blockOutbound_inv [OF inv, of e p w] have "ledger_inv plat s1" by simp
  from blockInbound_inv [OF this, of e p w1] o show ?thesis
    by (auto simp: block_def split: prod.splits)
qed

lemma dispatch_blocker_inv:
  assumes "dispatch_blocker plat e target cmd s w = Some (s1, w1)" and "ledger_inv plat s"
  shows "ledger_inv plat s1"
proof -
  have "s1 = s \<or> s1 = fst (snd (blockOutbound plat e target s w)) \<or>
        s1 = fst (snd (blockInbound plat e target s w)) \<or>
        s1 = fst (snd (block plat e target s w)) \<or>
        s1 = fst (snd (unblock plat e s w))"
    using assms(1) by (auto simp: dispatch_blocker_def split: if_splits)
  with assms(2) show ?thesis
    by (auto simp: blockOutbound_inv blockInbound_inv block_both_inv unblock_inv)
qed

lemma run_blocker_clean:
  "ledger_inv plat s \<Longrightarrow>
   \<exists>s'. fst (snd (run_blocker plat e target evs s w)) = Some s' \<and> nothing_blocked s'"
proof (induction evs arbitrary: s w)
  case Nil
  then show ?case by (simp add: finish_blocker_clean)
next
  case (Cons ev evs)
  show ?case
  proof (cases ev)
    case Signal
    with Cons.prems show ?thesis by (simp add: cleanup_blocker_clean)
  next
    case (Line l)
    show ?thesis
    proof (cases "rtrim (ltrim l) = []")
      case True
      with Line Cons show ?thesis by simp
    next
      case False
      show ?thesis
      proof (cases "dispatch_blocker plat e target (rtrim (ltrim l)) s w")
        case None
        with Line False Cons.prems show ?thesis by (simp add: finish_blocker_clean)
      next
        case (Some sw)
        obtain s1 w1 where sw: "sw = (s1, w1)" by (cases sw) auto
        from dispatch_blocker_inv [OF Some [unfolded sw] Cons.prems]
        have "ledger_inv plat s1" .
        from Cons.IH [OF this] Line False Some sw show ?thesis by simp
      qed
    qed
  qed
qed

lemma NetCtrl_inv: "ledger_inv plat (fst (NetCtrl plat e name w))"
  by (simp add: NetCtrl_def ledger_inv_def)

lemma main_blocker_clean:
  "is_admin e \<Longrightarrow>
   \<exists>s'. fst (snd (main_blocker plat e argv evs w)) = Some s' \<and> nothing_blocked s'"
  using NetCtrl_inv [of plat e "''netctrl''" w]
  by (auto simp: main_blocker_def Let_def run_blocker_clean split: prod.splits)

lemma cleanup_lag_clean:
  "\<exists>l'. fst (snd (cleanup_lag plat e (Some l) w)) = Some l' \<and> lag_off l'"
  using disable_off [of plat e l w]
  by (auto simp: cleanup_lag_def split: prod.splits)

lemma destroy_lag_clean: "lag_off (fst (LagCtrl_destroy plat e l w))"
  by (simp add: LagCtrl_destroy_def disable_off)

lemma finish_lag_clean:
  "\<exists>l'. fst (snd (finish_lag plat e l w)) = Some l' \<and> lag_off l'"
  by (auto simp: finish_lag_def destroy_lag_clean split: prod.splits)
     (metis destroy_lag_clean fst_conv)

lemma run_lag_clean:
  "\<exists>l'. fst (snd (run_lag plat e evs l w)) = Some l' \<and> lag_off l'"
proof (induction evs arbitrary: l w)
  case Nil
  show ?case by (simp add: finish_lag_clean)
next
  case (Cons ev evs)
  show ?case
  proof (cases ev)
    case Signal
    then show ?thesis by (simp add: cleanup_lag_clean)
  next
    case (Line ln)
    then show ?thesis
      by (cases "dispatch_lag plat e ln l w") (auto simp: finish_lag_clean Cons.IH)
  qed
qed

lemma main_lag_clean:
  "is_admin e \<Longrightarrow> \<exists>l'. fst (snd (main_lag plat e evs w)) = Some l' \<and> lag_off l'"
  by (auto simp: main_lag_def run_lag_clean split: prod.splits)

lemma lag_off_update:
  "lag_off l \<Longrightarrow>
   l\<lparr>is_active := False, current_lag_ms := 0, current_drop_percent := Fin 0\<rparr> = l"
  by (cases l) (simp add: lag_off_def isActive_def getLag_def getDrop_def)

lemma disable_cmds_nonempty: "disable_cmds plat l \<noteq> []"
  by (cases plat) (simp_all add: disable_cmds_def)

section \<open>Resolution, and what a block leaves to undo\<close>

lemma unresolved_block:
  assumes "\<not> resolves plat e p s w"
  shows "blockDirection plat e p inbound s w =
           (False, s, w\<lparr>calls := calls w @ [resolution_call plat p]\<rparr>)"
proof (cases plat)
  case Windows
  with assms show ?thesis
    by (auto simp: resolves_def resolution_call_def blockDirection_def blockWindows_def
          resolve_exe_def snapshot_def split: option.splits)
next
  case Linux
  with assms show ?thesis
    by (auto simp: resolves_def resolution_call_def blockDirection_def blockLinux_def
          popen_def Let_def split: option.splits)
qed

lemma resolved_last_linux:
  assumes "resolves Linux e p s w" and "blockLinux e p inbound s w = (r, s1, w1)"
  shows "\<exists>cmd. last (calls w1) = System cmd"
proof -
  from assms(1) obtain out buf where
    out: "popen_out e (calls w) (pgrep_cmd p) = Some out" and
    buf: "fgets 32 out = Some buf" and pid: "atoi buf > 0"
    by (auto simp: resolves_def split: option.splits)
  let ?w1 = "w\<lparr>calls := calls w @ [Popen (pgrep_cmd p)]\<rparr>"
  obtain s2 w2 where cf: "check_flatpak e p (atoi buf) s ?w1 = (s2, w2)"
    by (cases "check_flatpak e p (atoi buf) s ?w1") auto
  show ?thesis
  proof (cases "blocked_cgroup s2 = []")
    case False
    obtain f s3 w3 where bc: "block_by_cgroup e inbound s2 w2 = (f, s3, w3)"
      by (cases "block_by_cgroup e inbound s2 w2") auto
    from assms(2) out buf pid cf False bc have "w1 = w3"
      by (auto simp: blockLinux_def popen_def Let_def)
    with block_by_cgroup_shape [OF bc] show ?thesis by simp
  next
    case True
    obtain f s3 w3 where bp: "block_by_pid e inbound (atoi buf) s2 w2 = (f, s3, w3)"
      by (cases "block_by_pid e inbound (atoi buf) s2 w2") auto
    from assms(2) out buf pid cf True bp have "w1 = w3"
      by (auto simp: blockLinux_def popen_def Let_def)
    with block_by_pid_shape [OF bp] show ?thesis by simp
  qed
qed

lemma resolved_last_windows:
  assumes "resolves Windows e p s w" and "blockWindows e p inbound s w = (r, s1, w1)"
  shows "\<exists>cmd. last (calls w1) = System cmd"
  using assms
  by (auto simp: resolves_def blockWindows_def resolve_exe_def snapshot_def system_def
        split: option.splits if_splits)

lemma resolved_last:
  assumes "resolves plat e p s w" and "blockDirection plat e p inbound s w = (r, s1, w1)"
  shows "\<exists>cmd. last (calls w1) = System cmd \<and>
           r = (system_rc e (butlast (calls w1)) cmd = 0)"
proof -
  have "\<exists>cmd. last (calls w1) = System cmd"
    using assms resolved_last_linux resolved_last_windows
    by (cases plat) (auto simp: blockDirection_def)
  with block_result_iff [OF assms(2)] show ?thesis by auto
qed

lemma cgroup_kept:
  assumes "blockDirection plat e p inbound s w = (r, s1, w1)" and "blocked_cgroup s \<noteq> []"
  shows "blocked_cgroup s1 = blocked_cgroup s"
proof (cases plat)
  case Windows
  with assms show ?thesis
    by (auto simp: blockDirection_def blockWindows_def resolve_exe_def snapshot_def
          system_def mark_blocked_def split: option.splits if_splits)
next
  case Linux
  with assms show ?thesis
    by (auto simp: blockDirection_def blockLinux_def popen_def check_flatpak_def
          block_by_cgroup_def system_def mark_blocked_def Let_def
          split: option.splits if_splits)
qed

lemma rule_name_kept:
  assumes "blockDirection plat e p inbound s w = (r, s1, w1)"
  shows "rule_name s1 = rule_name s"
  using assms
  by (cases rule: blockDirection_cases)
     (auto simp: same_ledger_def mark_blocked_simps record_pid_simps)

lemma pids_grow:
  assumes "blockDirection plat e p inbound s w = (r, s1, w1)"
  shows "set (blocked_pids_out s) \<subseteq> set (blocked_pids_out s1) \<and>
         set (blocked_pids_in s) \<subseteq> set (blocked_pids_in s1)"
  using block_pids [OF assms]
  by (cases inbound) (auto simp: pids_of_def set_insort_key)

lemma undo_persist:
  assumes "blockDirection plat e p inbound s w = (r, s1, w1)"
  shows "set (undo_cmds plat s) \<subseteq> set (undo_cmds plat s1)"
proof (cases plat)
  case Windows
  with rule_name_kept [OF assms] show ?thesis
    by (simp add: undo_cmds_def delete_rule_cmd_def)
next
  case Linux
  from pids_grow [OF assms] have
    po: "set (blocked_pids_out s) \<subseteq> set (blocked_pids_out s1)" and
    pi: "set (blocked_pids_in s) \<subseteq> set (blocked_pids_in s1)" by simp_all
  show ?thesis
  proof (cases "blocked_cgroup s = []")
    case True
    with Linux po pi show ?thesis
      by (auto simp: undo_cmds_def)
  next
    case False
    from cgroup_kept [OF assms False] False Linux po pi show ?thesis
      by (auto simp: undo_cmds_def)
  qed
qed

lemma first_apply_covered:
  assumes inv: "ledger_inv plat s" and nf: "\<not> flagged inbound s"
    and res: "blockDirection plat e p inbound s w = (True, s1, w1)"
  shows "isBlocked s1 \<and> ledger_inv plat s1 \<and>
    (case plat of
       Windows \<Rightarrow>
         last (calls w1) = System (add_rule_cmd s1 inbound) \<and>
         delete_rule_cmd s1 (if inbound then ''_in'' else ''_out'') \<in>
           set (undo_cmds Windows s1)
     | Linux \<Rightarrow>
         if blocked_cgroup s1 \<noteq> [] then
           last (calls w1) =
             System (cgroup_rule_cmd ''-A'' (chain_of inbound) (blocked_cgroup s1)) \<and>
           cgroup_rule_cmd ''-D'' (chain_of inbound) (blocked_cgroup s1) \<in>
             set (undo_cmds Linux s1)
         else
           (\<exists>pid. last (calls w1) = System (pid_rule_cmd ''-A'' (chain_of inbound) pid) \<and>
              pids_of inbound s1 = [pid] \<and>
              pids_of (\<not> inbound) s1 = pids_of (\<not> inbound) s \<and>
              pid_rule_cmd ''-D'' (chain_of inbound) pid \<in> set (undo_cmds Linux s1)))"
proof -
  have fl: "flagged inbound s1" using block_true_flagged [OF res] .
  then have ib: "isBlocked s1" by (auto simp: flagged_def isBlocked_def split: if_splits)
  have li: "ledger_inv plat s1" using block_inv [OF res inv] .
  have "case plat of
       Windows \<Rightarrow>
         last (calls w1) = System (add_rule_cmd s1 inbound) \<and>
         delete_rule_cmd s1 (if inbound then ''_in'' else ''_out'') \<in>
           set (undo_cmds Windows s1)
     | Linux \<Rightarrow>
         if blocked_cgroup s1 \<noteq> [] then
           last (calls w1) =
             System (cgroup_rule_cmd ''-A'' (chain_of inbound) (blocked_cgroup s1)) \<and>
           cgroup_rule_cmd ''-D'' (chain_of inbound) (blocked_cgroup s1) \<in>
             set (undo_cmds Linux s1)
         else
           (\<exists>pid. last (calls w1) = System (pid_rule_cmd ''-A'' (chain_of inbound) pid) \<and>
              pids_of inbound s1 = [pid] \<and>
              pids_of (\<not> inbound) s1 = pids_of (\<not> inbound) s \<and>
              pid_rule_cmd ''-D'' (chain_of inbound) pid \<in> set (undo_cmds Linux s1))"
    using res
  proof (cases rule: blockDirection_cases)
    case unresolved
    then show ?thesis by simp
  next
    case (failed s2 cmd)
    then show ?thesis by simp
  next
    case (applied s2 cmd)
    from applied(7) show ?thesis
    proof
      assume a: "s1 = mark_blocked inbound s2 \<and>
        (plat = Windows \<and> cmd = add_rule_cmd s2 inbound \<or>
         plat = Linux \<and> blocked_cgroup s2 \<noteq> [] \<and>
         cmd = cgroup_rule_cmd ''-A'' (chain_of inbound) (blocked_cgroup s2))"
      with applied(4) show ?thesis
        by (auto simp: undo_cmds_def mark_blocked_simps add_rule_cmd_def chain_of_def)
    next
      assume "\<exists>pid. plat = Linux \<and> blocked_cgroup s2 = [] \<and>
          s1 = mark_blocked inbound (record_pid inbound pid s2) \<and>
          cmd = pid_rule_cmd ''-A'' (chain_of inbound) pid"
      then obtain pid where pid: "plat = Linux" "blocked_cgroup s2 = []"
          "s1 = mark_blocked inbound (record_pid inbound pid s2)"
          "cmd = pid_rule_cmd ''-A'' (chain_of inbound) pid"
        by blast
      from inv nf pid(1) have empty: "pids_of inbound s = []"
        by (auto simp: ledger_inv_def flagged_def pids_of_def split: if_splits)
      have p1: "pids_of inbound s1 = [pid]"
        using pid(3) applied(2) empty
        by (simp add: mark_blocked_simps record_pid_simps same_ledger_simps set_insert_def)
      have p2: "pids_of (\<not> inbound) s1 = pids_of (\<not> inbound) s"
        using pid(3) applied(2)
        by (simp add: mark_blocked_simps record_pid_simps same_ledger_simps)
      have cg: "blocked_cgroup s1 = []"
        using pid(2,3) by (simp add: mark_blocked_simps record_pid_simps)
      have u: "pid_rule_cmd ''-D'' (chain_of inbound) pid \<in> set (undo_cmds Linux s1)"
        using p1 cg by (cases inbound) (auto simp: undo_cmds_def pids_of_def chain_of_def)
      from pid(1,4) applied(4) p1 p2 cg u show ?thesis by auto
    qed
  qed
  with ib li show ?thesis by simp
qed

lemma block_keeps_blocked:
  assumes "blockDirection plat e p inbound s w = (r, s1, w1)" and "isBlocked s"
  shows "isBlocked s1"
proof -
  from assms(2) have "flagged True s \<or> flagged False s"
    by (auto simp: isBlocked_def flagged_def)
  then have "flagged True s1 \<or> flagged False s1"
    using block_keeps_flag [OF assms(1)] by blast
  then show ?thesis by (auto simp: isBlocked_def flagged_def)
qed

section \<open>Leaving between two library calls\<close>

text \<open>At a statement boundary of the programs, each way out revokes from the state it
  finds: every recorded key's undo command is issued, and nothing stays flagged.\<close>

lemma exits_revoke:
  "unblock plat e s w =
     (True, (if isBlocked s then cleared plat s else s),
      w\<lparr>calls := calls w @ (if isBlocked s then map System (undo_cmds plat s) else [])\<rparr>)"
  "NetCtrl_destroy plat e s w =
     ((if isBlocked s then cleared plat s else s),
      w\<lparr>calls := calls w @ (if isBlocked s then map System (undo_cmds plat s) else [])\<rparr>)"
  "cleanup_blocker plat e (Some s) w =
     (0, Some (if isBlocked s then cleared plat s else s),
      w\<lparr>calls := calls w @ (if isBlocked s then map System (undo_cmds plat s) else [])\<rparr>)"
  "finish_blocker plat e s w =
     (0, Some (if isBlocked s then cleared plat s else s),
      w\<lparr>calls := calls w @ (if isBlocked s then map System (undo_cmds plat s) else [])\<rparr>)"
proof -
  have nb: "\<not> isBlocked (cleared plat s)"
    by (cases plat) (simp_all add: cleared_def isBlocked_def)
  show u: "unblock plat e s w =
     (True, (if isBlocked s then cleared plat s else s),
      w\<lparr>calls := calls w @ (if isBlocked s then map System (undo_cmds plat s) else [])\<rparr>)"
    by (simp add: unblock_eq unblock_noop)
  show "NetCtrl_destroy plat e s w =
     ((if isBlocked s then cleared plat s else s),
      w\<lparr>calls := calls w @ (if isBlocked s then map System (undo_cmds plat s) else [])\<rparr>)"
    by (simp add: NetCtrl_destroy_def unblock_eq unblock_noop)
  show "cleanup_blocker plat e (Some s) w =
     (0, Some (if isBlocked s then cleared plat s else s),
      w\<lparr>calls := calls w @ (if isBlocked s then map System (undo_cmds plat s) else [])\<rparr>)"
    by (simp add: cleanup_blocker_def unblock_eq unblock_noop)
  show "finish_blocker plat e s w =
     (0, Some (if isBlocked s then cleared plat s else s),
      w\<lparr>calls := calls w @ (if isBlocked s then map System (undo_cmds plat s) else [])\<rparr>)"
    by (simp add: finish_blocker_def NetCtrl_destroy_def unblock_eq unblock_noop nb)
qed

lemma blockLinux_via_pclose:
  "blockLinux e p inbound s w =
     (case at_pclose e p inbound s w of
        None \<Rightarrow> (False, s, snd (popen e (pgrep_cmd p) w))
      | Some (found, s1, w1) \<Rightarrow>
          (found, (if found then mark_blocked inbound s1 else s1), w1))"
  by (simp add: blockLinux_def at_pclose_def popen_def split: option.splits)

section \<open>The concrete runs\<close>

lemma resolve_exe_fresh:
  "resolve_exe env_ok ''sober'' ctrl0 world0 =
     (True, ctrl_win, \<lparr>calls = [Snapshot], setup_flag = False\<rparr>)"
  by (simp add: resolve_exe_def snapshot_def env_ok_def ctrl0_def world0_def ctrl_win_def)

lemma resolve_exe_fresh_fail:
  "resolve_exe env_fail ''sober'' ctrl0 world0 =
     (True, ctrl_win, \<lparr>calls = [Snapshot], setup_flag = False\<rparr>)"
  by (simp add: resolve_exe_def snapshot_def env_ok_def env_fail_def ctrl0_def world0_def
        ctrl_win_def)

lemma first_block_win:
  "blockDirection Windows env_ok ''sober'' False ctrl0 world0 = (True, ctrl_win_out, world_win1)"
  by (simp add: blockDirection_def blockWindows_def resolve_exe_fresh system_def
        mark_blocked_def ctrl_win_out_def world_win1_def)
     (simp add: env_ok_def)

lemma second_block_win:
  "blockDirection Windows env_ok ''sober'' False ctrl_win_out world_win1 =
     (True, ctrl_win_out,
      world_win1\<lparr>calls := calls world_win1 @ [System (add_rule_cmd ctrl_win False)]\<rparr>)"
proof -
  have p: "exe_path ctrl_win_out \<noteq> []"
    by (simp add: ctrl_win_out_def ctrl_win_def)
  have c: "add_rule_cmd ctrl_win_out False = add_rule_cmd ctrl_win False"
    by (simp add: add_rule_cmd_def ctrl_win_out_def)
  have r: "system_rc env_ok h c = 0" for h c
    by (simp add: env_ok_def)
  show ?thesis
    by (simp add: blockDirection_def blockWindows_def resolve_exe_def p c r system_def
        mark_blocked_def)
       (simp add: ctrl_win_out_def)
qed

lemma failed_block_win:
  "blockDirection Windows env_fail ''sober'' False ctrl0 world0 = (False, ctrl_win, world_win1)"
  by (simp add: blockDirection_def blockWindows_def resolve_exe_fresh_fail system_def
        world_win1_def)
     (simp add: env_fail_def)

lemma atoi_pgrep_out: "atoi pgrep_out = 4242"
  by (simp add: pgrep_out_def atoi_def strtol_def to_int32_def isspace_def isdigit_def
        digit_value_def newline_def)

lemma fgets_pgrep_out: "fgets 32 pgrep_out = Some pgrep_out"
  by (simp add: pgrep_out_def fgets_def newline_def)

lemma fgets_flatpak_line: "fgets 512 flatpak_cgroup_line = Some flatpak_cgroup_line"
  by (simp add: flatpak_cgroup_line_def fgets_def newline_def)

lemma fgets_session_line: "fgets 512 session_cgroup_line = Some session_cgroup_line"
  by (simp add: session_cgroup_line_def fgets_def newline_def)

lemma c_str_lines:
  "c_str flatpak_cgroup_line = flatpak_cgroup_line"
  "c_str session_cgroup_line = session_cgroup_line"
  by (simp_all add: c_str_def flatpak_cgroup_line_def session_cgroup_line_def newline_def)

lemma find_flatpak: "str_find flatpak_cgroup_line ''flatpak''"
  by (simp add: flatpak_cgroup_line_def)

lemma find_session:
  "\<not> str_find session_cgroup_line ''flatpak''" "\<not> str_find session_cgroup_line ''app-''"
  by (simp_all add: session_cgroup_line_def newline_def)

lemma flatpak_key:
  "\<exists>rest. after_last_colon flatpak_cgroup_line = Some rest \<and>
     rtrim rest = ''/user.slice/app-flatpak-sober.scope''"
  by (simp add: flatpak_cgroup_line_def after_last_colon_def rtrim_def trim_chars_def
        newline_def)

lemma env_answers:
  "system_rc env_ok h c = 0"
  "system_rc env_fail h c = 1"
  "system_rc env_flatpak_fail h c = 1"
  "popen_out env_ok h (pgrep_cmd p) = Some pgrep_out"
  "popen_out env_flatpak_fail h (pgrep_cmd p) = Some pgrep_out"
  "fopen_out env_ok h f = Some session_cgroup_line"
  "fopen_out env_flatpak_fail h f = Some flatpak_cgroup_line"
  by (simp_all add: env_ok_def env_fail_def env_flatpak_fail_def pgrep_cmd_def
        ip_route_cmd_def)

lemma check_flatpak_found:
  "check_flatpak env_flatpak_fail ''sober'' 4242 ctrl0 w =
     (ctrl_flatpak, w\<lparr>calls := calls w @ [Fopen ''/proc/4242/cgroup'']\<rparr>)"
proof -
  have f: "''/proc/'' @ to_string 4242 @ ''/cgroup'' = ''/proc/4242/cgroup''"
    by (simp add: to_string_def)
  from flatpak_key obtain rest where
    rest: "after_last_colon flatpak_cgroup_line = Some rest"
      "rtrim rest = ''/user.slice/app-flatpak-sober.scope''"
    by blast
  have "read_cgroup env_flatpak_fail 4242 ctrl0 w =
     (ctrl0\<lparr>blocked_cgroup := ''/user.slice/app-flatpak-sober.scope''\<rparr>,
      w\<lparr>calls := calls w @ [Fopen ''/proc/4242/cgroup'']\<rparr>)"
    unfolding read_cgroup_def fopen_def f
    by (simp add: env_answers fgets_flatpak_line c_str_lines find_flatpak rest)
  moreover have "blocked_cgroup ctrl0 = [] \<and> process_name ctrl0 = []"
    by (simp add: ctrl0_def)
  ultimately show ?thesis
    by (simp add: check_flatpak_def ctrl_flatpak_def)
qed

lemma check_flatpak_plain:
  "check_flatpak env_ok ''sober'' 4242 ctrl0 w =
     (ctrl_pid, w\<lparr>calls := calls w @ [Fopen ''/proc/4242/cgroup'']\<rparr>)"
proof -
  have f: "''/proc/'' @ to_string 4242 @ ''/cgroup'' = ''/proc/4242/cgroup''"
    by (simp add: to_string_def)
  have "read_cgroup env_ok 4242 ctrl0 w =
     (ctrl0, w\<lparr>calls := calls w @ [Fopen ''/proc/4242/cgroup'']\<rparr>)"
    unfolding read_cgroup_def fopen_def f
    by (simp add: env_answers fgets_session_line c_str_lines find_session)
  moreover have "blocked_cgroup ctrl0 = [] \<and> process_name ctrl0 = []"
    by (simp add: ctrl0_def)
  ultimately show ?thesis
    by (simp add: check_flatpak_def ctrl_pid_def)
qed

lemma failed_block_flatpak:
  "blockDirection Linux env_flatpak_fail ''sober'' False ctrl0 world0 =
     (False, ctrl_flatpak,
      \<lparr>calls = [Popen (pgrep_cmd ''sober''), Fopen ''/proc/4242/cgroup'',
                 System (cgroup_rule_cmd ''-A'' ''NETCTRL_OUT''
                           ''/user.slice/app-flatpak-sober.scope'')],
        setup_flag = False\<rparr>)"
proof -
  have cg: "blocked_cgroup ctrl_flatpak = ''/user.slice/app-flatpak-sober.scope''"
    by (simp add: ctrl_flatpak_def)
  show ?thesis
    by (simp add: blockDirection_def blockLinux_def popen_def env_answers fgets_pgrep_out
          atoi_pgrep_out check_flatpak_found cg block_by_cgroup_def system_def chain_of_def
          world0_def)
qed

lemma first_block_linux:
  "blockDirection Linux env_ok ''sober'' False ctrl0 world0 =
     (True, ctrl_pid_out, world_linux1)"
proof -
  have cg: "blocked_cgroup ctrl_pid = []" "blocked_pids_out ctrl_pid = []"
    by (simp_all add: ctrl_pid_def ctrl0_def)
  show ?thesis
    by (simp add: blockDirection_def blockLinux_def popen_def env_answers fgets_pgrep_out
          atoi_pgrep_out check_flatpak_plain cg block_by_pid_def system_def chain_of_def
          world0_def world_linux1_def record_pid_def set_insert_def mark_blocked_def
          ctrl_pid_out_def)
qed

lemma second_block_linux:
  "blockDirection Linux env_ok ''sober'' False ctrl_pid_out w =
     (True, ctrl_pid_out,
      w\<lparr>calls := calls w @ [Popen (pgrep_cmd ''sober''),
                 System (pid_rule_cmd ''-A'' ''NETCTRL_OUT'' 4242)]\<rparr>)"
proof -
  have cg: "blocked_cgroup ctrl_pid_out = []" "blocked_pids_out ctrl_pid_out = [4242]"
     "process_name ctrl_pid_out \<noteq> []"
    by (simp_all add: ctrl_pid_out_def ctrl_pid_def ctrl0_def)
  have same: "ctrl_pid_out\<lparr>blocked_pids_out := [4242], is_blocked_outbound := True\<rparr> = ctrl_pid_out"
    by (simp add: ctrl_pid_out_def)
  show ?thesis
    by (simp add: blockDirection_def blockLinux_def popen_def env_answers fgets_pgrep_out
          atoi_pgrep_out check_flatpak_def cg block_by_pid_def system_def chain_of_def
          record_pid_def set_insert_def mark_blocked_def same)
qed

lemma resolves_fixtures:
  "\<not> resolves Linux env_missing ''missingProc'' ctrl0 world0"
  "\<not> resolves Windows env_missing ''missingProc'' ctrl0 world0"
  "resolves Windows env_fail ''sober'' ctrl0 world0"
  by (simp_all add: resolves_def env_missing_def env_fail_def env_ok_def fgets_def ctrl0_def)

lemma second_block_linux_w1:
  "blockDirection Linux env_ok ''sober'' False ctrl_pid_out world_linux1 =
     (True, ctrl_pid_out, world_linux2)"
  by (simp add: second_block_linux world_linux2_def)

lemma inbound_block_linux:
  "blockDirection Linux env_ok ''sober'' True ctrl_pid_out w =
     (True, ctrl_pid_both,
      w\<lparr>calls := calls w @ [Popen (pgrep_cmd ''sober''),
                 System (pid_rule_cmd ''-A'' ''NETCTRL_IN'' 4242)]\<rparr>)"
proof -
  have cg: "blocked_cgroup ctrl_pid_out = []" "blocked_pids_in ctrl_pid_out = []"
     "process_name ctrl_pid_out \<noteq> []"
    by (simp_all add: ctrl_pid_out_def ctrl_pid_def ctrl0_def)
  show ?thesis
    by (simp add: blockDirection_def blockLinux_def popen_def env_answers fgets_pgrep_out
          atoi_pgrep_out check_flatpak_def cg block_by_pid_def system_def chain_of_def
          record_pid_def set_insert_def mark_blocked_def ctrl_pid_both_def)
qed

lemma rule_cmds_differ:
  "pid_rule_cmd ''-A'' chain pid \<noteq> pid_rule_cmd ''-D'' chain pid"
  by (simp add: pid_rule_cmd_def)

lemma unblock_after_reblock:
  "unblock Linux env_ok ctrl_pid_out world_linux2 =
     (True, cleared Linux ctrl_pid_out,
      world_linux2\<lparr>calls := calls world_linux2 @
        [System (pid_rule_cmd ''-D'' ''NETCTRL_OUT'' 4242)]\<rparr>)"
proof -
  have h: "isBlocked ctrl_pid_out"
    by (simp add: isBlocked_def ctrl_pid_out_def)
  have u: "undo_cmds Linux ctrl_pid_out = [pid_rule_cmd ''-D'' ''NETCTRL_OUT'' 4242]"
    by (simp add: undo_cmds_def ctrl_pid_out_def ctrl_pid_def ctrl0_def)
  show ?thesis by (simp add: unblock_eq [OF h] u)
qed

lemma at_pclose_first:
  "at_pclose env_ok ''sober'' False ctrl0 world0 = Some (True, ctrl_pid_recorded, world_linux1)"
proof -
  have cg: "blocked_cgroup ctrl_pid = []" "blocked_pids_out ctrl_pid = []"
    by (simp_all add: ctrl_pid_def ctrl0_def)
  show ?thesis
    by (simp add: at_pclose_def popen_def env_answers fgets_pgrep_out
          atoi_pgrep_out check_flatpak_plain cg block_by_pid_def system_def chain_of_def
          world0_def world_linux1_def record_pid_def set_insert_def ctrl_pid_recorded_def)
qed

lemma check_flatpak_found_ok:
  "check_flatpak env_flatpak ''sober'' 4242 ctrl0 w =
     (ctrl_flatpak, w\<lparr>calls := calls w @ [Fopen ''/proc/4242/cgroup'']\<rparr>)"
proof -
  have f: "''/proc/'' @ to_string 4242 @ ''/cgroup'' = ''/proc/4242/cgroup''"
    by (simp add: to_string_def)
  have fo: "fopen_out env_flatpak h c = Some flatpak_cgroup_line" for h c
    by (simp add: env_flatpak_def)
  from flatpak_key obtain rest where
    rest: "after_last_colon flatpak_cgroup_line = Some rest"
      "rtrim rest = ''/user.slice/app-flatpak-sober.scope''"
    by blast
  have "read_cgroup env_flatpak 4242 ctrl0 w =
     (ctrl0\<lparr>blocked_cgroup := ''/user.slice/app-flatpak-sober.scope''\<rparr>,
      w\<lparr>calls := calls w @ [Fopen ''/proc/4242/cgroup'']\<rparr>)"
    unfolding read_cgroup_def fopen_def f
    by (simp add: fo fgets_flatpak_line c_str_lines find_flatpak rest)
  moreover have "blocked_cgroup ctrl0 = [] \<and> process_name ctrl0 = []"
    by (simp add: ctrl0_def)
  ultimately show ?thesis
    by (simp add: check_flatpak_def ctrl_flatpak_def)
qed

lemma first_block_flatpak:
  "blockDirection Linux env_flatpak ''sober'' False ctrl0 world0 =
     (True, ctrl_flatpak_out, world_flatpak1)"
proof -
  have cg: "blocked_cgroup ctrl_flatpak = ''/user.slice/app-flatpak-sober.scope''"
    by (simp add: ctrl_flatpak_def)
  have a: "popen_out env_flatpak h (pgrep_cmd p) = Some pgrep_out"
    "system_rc env_flatpak h c = 0" for h p c
    by (simp_all add: env_flatpak_def env_ok_def pgrep_cmd_def ip_route_cmd_def)
  show ?thesis
    by (simp add: blockDirection_def blockLinux_def popen_def a fgets_pgrep_out
          atoi_pgrep_out check_flatpak_found_ok cg block_by_cgroup_def system_def chain_of_def
          world0_def world_flatpak1_def mark_blocked_def ctrl_flatpak_out_def)
qed

text \<open>A failed attempt can leave the cache behind for good: with no direction flagged,
  \<^verbatim>\<open>unblock\<close> returns at once and the cgroup key stays.\<close>

lemma cache_outlives_unblock:
  "unblock plat e ctrl_flatpak w = (True, ctrl_flatpak, w) \<and>
   blocked_cgroup ctrl_flatpak \<noteq> []"
  by (simp add: unblock_def ctrl_flatpak_def ctrl0_def)

section \<open>The claims\<close>

text \<open>
  C1. The code does not have this property. \<^verbatim>\<open>blockOutbound\<close> and \<^verbatim>\<open>blockInbound\<close> never
  test the direction's flag. On Linux, with the process running under PID 4242 and every
  command succeeding, the second \<^verbatim>\<open>blockOutbound\<close> appends the \<^verbatim>\<open>iptables\<close> rule a second
  time and records nothing new, the PID being in the set already; \<^verbatim>\<open>unblock\<close> then deletes
  the rule once. Two rules were appended and one is deleted, against the header's
  "Clean removal of all rules on unblocking or destruction". The command-line program
  reaches the same state: after \<^verbatim>\<open>block-out\<close>, its \<^verbatim>\<open>block\<close> command, which only refuses
  when both directions are blocked, appends the outbound rule again.
\<close>

theorem reblock_leaves_rule_behind:
  "blockOutbound Linux env_ok ''sober'' ctrl0 world0 = (True, ctrl_pid_out, world_linux1) \<and>
   blockOutbound Linux env_ok ''sober'' ctrl_pid_out world_linux1 =
     (True, ctrl_pid_out, world_linux2) \<and>
   blocked_pids_out ctrl_pid_out = [4242] \<and>
   unblock Linux env_ok ctrl_pid_out world_linux2 =
     (True, cleared Linux ctrl_pid_out,
      world_linux2\<lparr>calls := calls world_linux2 @
        [System (pid_rule_cmd ''-D'' ''NETCTRL_OUT'' 4242)]\<rparr>) \<and>
   calls world_linux2 @ [System (pid_rule_cmd ''-D'' ''NETCTRL_OUT'' 4242)] =
     [Popen (pgrep_cmd ''sober''), Fopen ''/proc/4242/cgroup'',
      System (pid_rule_cmd ''-A'' ''NETCTRL_OUT'' 4242),
      Popen (pgrep_cmd ''sober''),
      System (pid_rule_cmd ''-A'' ''NETCTRL_OUT'' 4242),
      System (pid_rule_cmd ''-D'' ''NETCTRL_OUT'' 4242)] \<and>
   count_list (calls world_linux2 @ [System (pid_rule_cmd ''-D'' ''NETCTRL_OUT'' 4242)])
     (System (pid_rule_cmd ''-A'' ''NETCTRL_OUT'' 4242)) = 2 \<and>
   count_list (calls world_linux2 @ [System (pid_rule_cmd ''-D'' ''NETCTRL_OUT'' 4242)])
     (System (pid_rule_cmd ''-D'' ''NETCTRL_OUT'' 4242)) = 1 \<and>
   dispatch_blocker Linux env_ok ''sober'' ''block'' ctrl_pid_out world_linux1 =
     Some (ctrl_pid_both,
           world_linux2\<lparr>calls := calls world_linux2 @
             [Popen (pgrep_cmd ''sober''),
              System (pid_rule_cmd ''-A'' ''NETCTRL_IN'' 4242)]\<rparr>)"
proof -
  have c: "calls world_linux2 =
     [Popen (pgrep_cmd ''sober''), Fopen ''/proc/4242/cgroup'',
      System (pid_rule_cmd ''-A'' ''NETCTRL_OUT'' 4242),
      Popen (pgrep_cmd ''sober''),
      System (pid_rule_cmd ''-A'' ''NETCTRL_OUT'' 4242)]"
    by (simp add: world_linux2_def world_linux1_def)
  have p: "blocked_pids_out ctrl_pid_out = [4242]"
    by (simp add: ctrl_pid_out_def)
  have f: "isBlockedOutbound ctrl_pid_out" "\<not> isBlockedInbound ctrl_pid_out"
    by (simp_all add: isBlockedOutbound_def isBlockedInbound_def ctrl_pid_out_def
          ctrl_pid_def ctrl0_def)
  have d: "dispatch_blocker Linux env_ok ''sober'' ''block'' ctrl_pid_out world_linux1 =
     Some (snd (block Linux env_ok ''sober'' ctrl_pid_out world_linux1))"
    by (simp add: dispatch_blocker_def f)
  have b: "block Linux env_ok ''sober'' ctrl_pid_out world_linux1 =
     (True, ctrl_pid_both,
      world_linux2\<lparr>calls := calls world_linux2 @
        [Popen (pgrep_cmd ''sober''), System (pid_rule_cmd ''-A'' ''NETCTRL_IN'' 4242)]\<rparr>)"
    by (simp add: block_def blockOutbound_def blockInbound_def second_block_linux_w1
          inbound_block_linux)
  show ?thesis
    by (simp add: blockOutbound_def first_block_linux second_block_linux_w1 p
          unblock_after_reblock c rule_cmds_differ rule_cmds_differ [symmetric] d b)
qed

text \<open>
  C2, as the code has it by design. When at least one direction is flagged,
  \<^verbatim>\<open>unblock\<close> returns \<open>true\<close> and issues exactly the commands of \<open>undo_cmds\<close>, each
  once and in that order, in every environment and so whatever exit status any of them
  reports: on Windows the two \<^verbatim>\<open>delete rule\<close> commands, on Linux two \<^verbatim>\<open>iptables -D\<close>
  commands for the cgroup key when one is recorded, then one per recorded PID of each
  direction. Afterwards no direction is flagged, and on Linux the PID sets and the cgroup
  key are empty. The undo commands cover the applies: a successful block of a direction
  that was not flagged leaves the controller blocked, with the undo of the very command
  it issued among the commands \<^verbatim>\<open>unblock\<close> will issue; in the PID case that is the one
  new entry of the direction's PID set, the other direction's set being untouched. And
  no later block attempt, whatever it returns, takes a command out of that list or
  unflags the controller. The statement does not speak about a repeated block of a
  direction that is flagged already.
\<close>

theorem unblock_undoes_recorded_keys:
  "(isBlocked u \<longrightarrow>
      unblock plat e u w =
        (True, cleared plat u, w\<lparr>calls := calls w @ map System (undo_cmds plat u)\<rparr>) \<and>
      length (undo_cmds plat u) =
        (case plat of
           Windows \<Rightarrow> 2
         | Linux \<Rightarrow>
             (if blocked_cgroup u \<noteq> [] then 2 else 0) +
             length (blocked_pids_out u) + length (blocked_pids_in u)) \<and>
      \<not> isBlocked (cleared plat u) \<and>
      (plat = Linux \<longrightarrow>
         blocked_pids_out (cleared plat u) = [] \<and> blocked_pids_in (cleared plat u) = [] \<and>
         blocked_cgroup (cleared plat u) = [])) \<and>
   (case blockDirection plat e p inbound s w of
      (r, s1, w1) \<Rightarrow>
        set (undo_cmds plat s) \<subseteq> set (undo_cmds plat s1) \<and>
        (isBlocked s \<longrightarrow> isBlocked s1) \<and>
        (ledger_inv plat s \<and> \<not> flagged inbound s \<and> r \<longrightarrow>
           isBlocked s1 \<and> ledger_inv plat s1 \<and>
           (case plat of
              Windows \<Rightarrow>
                last (calls w1) = System (add_rule_cmd s1 inbound) \<and>
                delete_rule_cmd s1 (if inbound then ''_in'' else ''_out'') \<in>
                  set (undo_cmds Windows s1)
            | Linux \<Rightarrow>
                if blocked_cgroup s1 \<noteq> [] then
                  last (calls w1) =
                    System (cgroup_rule_cmd ''-A'' (chain_of inbound) (blocked_cgroup s1)) \<and>
                  cgroup_rule_cmd ''-D'' (chain_of inbound) (blocked_cgroup s1) \<in>
                    set (undo_cmds Linux s1)
                else
                  (\<exists>pid. last (calls w1) =
                       System (pid_rule_cmd ''-A'' (chain_of inbound) pid) \<and>
                     pids_of inbound s1 = [pid] \<and>
                     pids_of (\<not> inbound) s1 = pids_of (\<not> inbound) s \<and>
                     pid_rule_cmd ''-D'' (chain_of inbound) pid \<in>
                       set (undo_cmds Linux s1)))))"
proof -
  have a: "isBlocked u \<longrightarrow>
      unblock plat e u w =
        (True, cleared plat u, w\<lparr>calls := calls w @ map System (undo_cmds plat u)\<rparr>) \<and>
      length (undo_cmds plat u) =
        (case plat of
           Windows \<Rightarrow> 2
         | Linux \<Rightarrow>
             (if blocked_cgroup u \<noteq> [] then 2 else 0) +
             length (blocked_pids_out u) + length (blocked_pids_in u)) \<and>
      \<not> isBlocked (cleared plat u) \<and>
      (plat = Linux \<longrightarrow>
         blocked_pids_out (cleared plat u) = [] \<and> blocked_pids_in (cleared plat u) = [] \<and>
         blocked_cgroup (cleared plat u) = [])"
    by (cases plat) (simp_all add: unblock_eq cleared_def isBlocked_def undo_cmds_def)
  obtain r s1 w1 where res: "blockDirection plat e p inbound s w = (r, s1, w1)"
    by (cases "blockDirection plat e p inbound s w") auto
  have b: "set (undo_cmds plat s) \<subseteq> set (undo_cmds plat s1)"
    using undo_persist [OF res] .
  have c: "isBlocked s \<longrightarrow> isBlocked s1"
    using block_keeps_blocked [OF res] by blast
  have d: "ledger_inv plat s \<and> \<not> flagged inbound s \<and> r \<longrightarrow>
           isBlocked s1 \<and> ledger_inv plat s1 \<and>
           (case plat of
              Windows \<Rightarrow>
                last (calls w1) = System (add_rule_cmd s1 inbound) \<and>
                delete_rule_cmd s1 (if inbound then ''_in'' else ''_out'') \<in>
                  set (undo_cmds Windows s1)
            | Linux \<Rightarrow>
                if blocked_cgroup s1 \<noteq> [] then
                  last (calls w1) =
                    System (cgroup_rule_cmd ''-A'' (chain_of inbound) (blocked_cgroup s1)) \<and>
                  cgroup_rule_cmd ''-D'' (chain_of inbound) (blocked_cgroup s1) \<in>
                    set (undo_cmds Linux s1)
                else
                  (\<exists>pid. last (calls w1) =
                       System (pid_rule_cmd ''-A'' (chain_of inbound) pid) \<and>
                     pids_of inbound s1 = [pid] \<and>
                     pids_of (\<not> inbound) s1 = pids_of (\<not> inbound) s \<and>
                     pid_rule_cmd ''-D'' (chain_of inbound) pid \<in>
                       set (undo_cmds Linux s1)))"
  proof (intro impI)
    assume h: "ledger_inv plat s \<and> \<not> flagged inbound s \<and> r"
    with res have t: "blockDirection plat e p inbound s w = (True, s1, w1)" by simp
    from h have h1: "ledger_inv plat s" and h2: "\<not> flagged inbound s" by simp_all
    show "isBlocked s1 \<and> ledger_inv plat s1 \<and>
           (case plat of
              Windows \<Rightarrow>
                last (calls w1) = System (add_rule_cmd s1 inbound) \<and>
                delete_rule_cmd s1 (if inbound then ''_in'' else ''_out'') \<in>
                  set (undo_cmds Windows s1)
            | Linux \<Rightarrow>
                if blocked_cgroup s1 \<noteq> [] then
                  last (calls w1) =
                    System (cgroup_rule_cmd ''-A'' (chain_of inbound) (blocked_cgroup s1)) \<and>
                  cgroup_rule_cmd ''-D'' (chain_of inbound) (blocked_cgroup s1) \<in>
                    set (undo_cmds Linux s1)
                else
                  (\<exists>pid. last (calls w1) =
                       System (pid_rule_cmd ''-A'' (chain_of inbound) pid) \<and>
                     pids_of inbound s1 = [pid] \<and>
                     pids_of (\<not> inbound) s1 = pids_of (\<not> inbound) s \<and>
                     pid_rule_cmd ''-D'' (chain_of inbound) pid \<in>
                       set (undo_cmds Linux s1)))"
      using first_apply_covered [OF h1 h2 t] .
  qed
  show ?thesis
    unfolding res prod.case using a b c d by (intro conjI)
qed

theorem unblock_undoes_recorded_keys_witness:
  "isBlocked ctrl_pid_both \<and>
   unblock Linux env_ok ctrl_pid_both world_linux1 =
     (True, cleared Linux ctrl_pid_both,
      world_linux1\<lparr>calls := calls world_linux1 @
        [System (pid_rule_cmd ''-D'' ''NETCTRL_OUT'' 4242),
         System (pid_rule_cmd ''-D'' ''NETCTRL_IN'' 4242)]\<rparr>) \<and>
   length (undo_cmds Linux ctrl_pid_both) = 2 \<and>
   \<not> isBlocked (cleared Linux ctrl_pid_both) \<and>
   blocked_pids_out (cleared Linux ctrl_pid_both) = [] \<and>
   blocked_pids_in (cleared Linux ctrl_pid_both) = [] \<and>
   blocked_cgroup (cleared Linux ctrl_pid_both) = [] \<and>
   isBlocked ctrl_pid_out \<and> ledger_inv Linux ctrl_pid_out \<and> \<not> flagged True ctrl_pid_out \<and>
   fst (blockDirection Linux env_ok ''sober'' True ctrl_pid_out world_linux1) \<and>
   fst (snd (blockDirection Linux env_ok ''sober'' True ctrl_pid_out world_linux1)) =
     ctrl_pid_both \<and>
   set (undo_cmds Linux ctrl_pid_out) \<subseteq> set (undo_cmds Linux ctrl_pid_both) \<and>
   pids_of True ctrl_pid_both = [4242] \<and>
   pid_rule_cmd ''-D'' (chain_of True) 4242 \<in> set (undo_cmds Linux ctrl_pid_both)"
proof -
  have h: "isBlocked ctrl_pid_both" "isBlocked ctrl_pid_out" "ledger_inv Linux ctrl_pid_out"
    "\<not> flagged True ctrl_pid_out" "pids_of True ctrl_pid_both = [4242]"
    "blocked_cgroup ctrl_pid_both = []"
    by (simp_all add: isBlocked_def ledger_inv_def flagged_def pids_of_def ctrl_pid_both_def
          ctrl_pid_out_def ctrl_pid_def ctrl0_def)
  have u: "undo_cmds Linux ctrl_pid_both =
      [pid_rule_cmd ''-D'' ''NETCTRL_OUT'' 4242, pid_rule_cmd ''-D'' ''NETCTRL_IN'' 4242]"
    by (simp add: undo_cmds_def ctrl_pid_both_def ctrl_pid_out_def ctrl_pid_def ctrl0_def)
  have c: "chain_of True = ''NETCTRL_IN''"
    by (simp add: chain_of_def)
  from unblock_undoes_recorded_keys
         [where plat = Linux and e = env_ok and u = ctrl_pid_both and w = world_linux1
            and s = ctrl_pid_out and inbound = True and p = "''sober''"]
       h
  show ?thesis
    by (simp add: inbound_block_linux u c)
qed

text \<open>C2 as stated fails: after one successful \<^verbatim>\<open>blockOutbound\<close>, \<^verbatim>\<open>unblock\<close> issues two
  undo commands, on Windows and, for a flatpak process, on Linux; the second deletes the
  rule of the direction that was never blocked.\<close>

theorem undo_count_counterexample:
  "blockOutbound Windows env_ok ''sober'' ctrl0 world0 = (True, ctrl_win_out, world_win1) \<and>
   calls (snd (snd (unblock Windows env_ok ctrl_win_out world_win1))) =
     calls world_win1 @
     [System (delete_rule_cmd ctrl_win_out ''_out''), System (delete_rule_cmd ctrl_win_out ''_in'')] \<and>
   length (calls (snd (snd (unblock Windows env_ok ctrl_win_out world_win1)))) =
     length (calls world_win1) + 2 \<and>
   blockOutbound Linux env_flatpak ''sober'' ctrl0 world0 =
     (True, ctrl_flatpak_out, world_flatpak1) \<and>
   calls (snd (snd (unblock Linux env_flatpak ctrl_flatpak_out world_flatpak1))) =
     calls world_flatpak1 @
     [System (cgroup_rule_cmd ''-D'' ''NETCTRL_OUT'' ''/user.slice/app-flatpak-sober.scope''),
      System (cgroup_rule_cmd ''-D'' ''NETCTRL_IN'' ''/user.slice/app-flatpak-sober.scope'')] \<and>
   length (calls (snd (snd (unblock Linux env_flatpak ctrl_flatpak_out world_flatpak1)))) =
     length (calls world_flatpak1) + 2"
proof -
  have h: "isBlocked ctrl_win_out"
    by (simp add: isBlocked_def ctrl_win_out_def)
  have h2: "isBlocked ctrl_flatpak_out"
    by (simp add: isBlocked_def ctrl_flatpak_out_def)
  have u2: "undo_cmds Linux ctrl_flatpak_out =
     [cgroup_rule_cmd ''-D'' ''NETCTRL_OUT'' ''/user.slice/app-flatpak-sober.scope'',
      cgroup_rule_cmd ''-D'' ''NETCTRL_IN'' ''/user.slice/app-flatpak-sober.scope'']"
    by (simp add: undo_cmds_def ctrl_flatpak_out_def ctrl_flatpak_def ctrl0_def)
  show ?thesis
    by (simp add: blockOutbound_def first_block_win first_block_flatpak unblock_eq [OF h]
          unblock_eq [OF h2] u2)
       (simp add: undo_cmds_def)
qed

text \<open>
  C3, as the code has it. \<^verbatim>\<open>unblock\<close> of the process blocker with no direction flagged
  returns \<open>true\<close>, issues no command and changes nothing. \<^verbatim>\<open>disable\<close> of an inactive
  lag controller returns \<open>true\<close> and leaves the controller as it is, but it always
  issues its removal commands, which are never none.
\<close>

theorem revoke_when_inactive:
  "(\<not> isBlocked s \<longrightarrow> unblock plat e s w = (True, s, w)) \<and>
   (\<not> isActive l \<and> lag_inv l \<longrightarrow>
      disable plat e l w =
        (True, l, w\<lparr>calls := calls w @ map System (disable_cmds plat l)\<rparr>) \<and>
      disable_cmds plat l \<noteq> [])"
proof -
  have "\<not> isActive l \<and> lag_inv l \<longrightarrow> lag_off l"
    by (simp add: lag_inv_def lag_off_def)
  then show ?thesis
    by (auto simp: unblock_noop disable_eq lag_off_update disable_cmds_nonempty)
qed

theorem revoke_when_inactive_witness:
  "\<not> isBlocked ctrl0 \<and> unblock Linux env_ok ctrl0 world0 = (True, ctrl0, world0) \<and>
   \<not> isActive lag0 \<and> lag_inv lag0 \<and>
   disable Linux env_ok lag0 world0 =
     (True, lag0, world0\<lparr>calls := calls world0 @ map System (disable_cmds Linux lag0)\<rparr>) \<and>
   disable_cmds Linux lag0 \<noteq> []"
proof -
  have h1: "\<not> isBlocked ctrl0"
    by (simp add: isBlocked_def ctrl0_def)
  have h2: "\<not> isActive lag0 \<and> lag_inv lag0"
    by (simp add: isActive_def lag_inv_def getLag_def getDrop_def lag0_def)
  from revoke_when_inactive
         [where s = ctrl0 and plat = Linux and e = env_ok and w = world0 and l = lag0]
       h1 h2
  show ?thesis by simp
qed

text \<open>C3 as stated fails: \<^verbatim>\<open>disable\<close> on a freshly constructed, inactive lag
  controller on Windows issues the two \<^verbatim>\<open>delete rule\<close> commands.\<close>

theorem disable_inactive_counterexample:
  "\<not> isActive (fst (LagCtrl Windows env_ok world0)) \<and>
   calls (snd (LagCtrl Windows env_ok world0)) = [] \<and>
   calls (snd (snd (disable Windows env_ok (fst (LagCtrl Windows env_ok world0))
                      (snd (LagCtrl Windows env_ok world0))))) =
     [System (netsh_delete_cmd ''NetCtrl_OUT''), System (netsh_delete_cmd ''NetCtrl_IN'')]"
  by (simp add: LagCtrl_def findInterface_def isActive_def disable_eq disable_cmds_def
        world0_def)

text \<open>
  C4, as the code has it. When the process is not resolved, a block attempt returns
  \<open>false\<close> after the one call that tried to resolve it and leaves every field of the
  controller as it was. When the process is resolved, the attempt ends with a command
  and returns whether that command exited with status 0. In all, it returns \<open>true\<close>
  exactly when its last external call is a command that exits with status 0. Whenever
  it returns \<open>false\<close>, the rule name, both flags and both PID sets are unchanged, so
  \<^verbatim>\<open>isBlocked\<close> answers as before; but after a failed command the cached resolution (the
  executable path, the process name, the cgroup key) may have been filled in.
\<close>

theorem failed_block_keeps_ledger:
  "(case blockDirection plat e p inbound s w of
      (r, s1, w1) \<Rightarrow>
        (\<not> resolves plat e p s w \<longrightarrow>
           \<not> r \<and> s1 = s \<and> calls w1 = calls w @ [resolution_call plat p]) \<and>
        (resolves plat e p s w \<longrightarrow>
           (\<exists>cmd. last (calls w1) = System cmd \<and>
              r = (system_rc e (butlast (calls w1)) cmd = 0))) \<and>
        r = (\<exists>cmd. last (calls w1) = System cmd \<and>
               system_rc e (butlast (calls w1)) cmd = 0) \<and>
        (\<not> r \<longrightarrow>
           same_ledger s s1 \<and> isBlocked s1 = isBlocked s \<and>
           (s1 = s \<or> (\<exists>cmd. last (calls w1) = System cmd))))"
proof -
  obtain r s1 w1 where res: "blockDirection plat e p inbound s w = (r, s1, w1)"
    by (cases "blockDirection plat e p inbound s w") auto
  have a: "\<not> resolves plat e p s w \<longrightarrow>
           \<not> r \<and> s1 = s \<and> calls w1 = calls w @ [resolution_call plat p]"
    using unresolved_block [of plat e p s w inbound] res by auto
  have b: "resolves plat e p s w \<longrightarrow>
           (\<exists>cmd. last (calls w1) = System cmd \<and>
              r = (system_rc e (butlast (calls w1)) cmd = 0))"
    using resolved_last [of plat e p s w inbound r s1 w1] res by blast
  have c: "r = (\<exists>cmd. last (calls w1) = System cmd \<and>
               system_rc e (butlast (calls w1)) cmd = 0)"
    using block_result_iff [OF res] .
  have d: "\<not> r \<longrightarrow>
           same_ledger s s1 \<and> isBlocked s1 = isBlocked s \<and>
           (s1 = s \<or> (\<exists>cmd. last (calls w1) = System cmd))"
    using block_false_ledger [of plat e p inbound s w s1 w1] res
    by (auto simp: same_ledger_simps)
  show ?thesis
    unfolding res prod.case using a b c d by (intro conjI)
qed

theorem failed_block_keeps_ledger_witness:
  "\<not> resolves Linux env_missing ''missingProc'' ctrl0 world0 \<and>
   blockDirection Linux env_missing ''missingProc'' False ctrl0 world0 =
     (False, ctrl0, world0\<lparr>calls := [Popen (pgrep_cmd ''missingProc'')]\<rparr>) \<and>
   \<not> isBlocked ctrl0 \<and>
   resolves Windows env_fail ''sober'' ctrl0 world0 \<and>
   blockDirection Windows env_fail ''sober'' False ctrl0 world0 = (False, ctrl_win, world_win1) \<and>
   same_ledger ctrl0 ctrl_win \<and> isBlocked ctrl_win = isBlocked ctrl0"
proof -
  have nb: "\<not> isBlocked ctrl0" by (simp add: isBlocked_def ctrl0_def)
  have m: "blockDirection Linux env_missing ''missingProc'' False ctrl0 world0 =
     (False, ctrl0, world0\<lparr>calls := [Popen (pgrep_cmd ''missingProc'')]\<rparr>)"
    using unresolved_block [OF resolves_fixtures(1), of False]
    by (simp add: resolution_call_def world0_def)
  from failed_block_keeps_ledger
      [where plat = Windows and e = env_fail and p = "''sober''" and inbound = False
         and s = ctrl0 and w = world0]
    failed_block_keeps_ledger
      [where plat = Linux and e = env_missing and p = "''missingProc''" and inbound = False
         and s = ctrl0 and w = world0]
    failed_block_win m nb resolves_fixtures
  show ?thesis by simp
qed

text \<open>C4 as stated fails: when the process is found and the add-rule command
  fails, \<^verbatim>\<open>blockOutbound\<close> returns \<open>false\<close> and has cached, on Windows, the
  executable path and the process name, and on Linux, for a flatpak process, the cgroup
  key and the process name.\<close>

theorem failed_block_counterexample:
  "blockOutbound Windows env_fail ''sober'' ctrl0 world0 = (False, ctrl_win, world_win1) \<and>
   exe_path ctrl0 = [] \<and> exe_path ctrl_win = ''C:/sober.exe'' \<and>
   process_name ctrl0 = [] \<and> process_name ctrl_win = ''sober'' \<and>
   \<not> fst (blockOutbound Linux env_flatpak_fail ''sober'' ctrl0 world0) \<and>
   fst (snd (blockOutbound Linux env_flatpak_fail ''sober'' ctrl0 world0)) = ctrl_flatpak \<and>
   blocked_cgroup ctrl0 = [] \<and>
   blocked_cgroup ctrl_flatpak = ''/user.slice/app-flatpak-sober.scope''"
  by (simp add: blockOutbound_def failed_block_win failed_block_flatpak)
     (simp add: ctrl0_def ctrl_win_def ctrl_flatpak_def)

text \<open>
  C5. Revoking never fails towards its caller. \<^verbatim>\<open>unblock\<close> of the process blocker and
  \<^verbatim>\<open>disable\<close> of the lag controller return \<open>true\<close> from every state, on both platforms
  and in every environment, so whatever exit status any of the undo commands reports.
  Both are total functions of the model: they issue a fixed, finite list of commands
  and read none of the exit statuses.
\<close>

theorem revoke_never_fails:
  "fst (unblock plat e s w) = True \<and> fst (disable plat e ls lw) = True"
  by (simp add: unblock_true disable_eq)

text \<open>
  C6. Both programs return exit code 1 when the privilege check fails and exit code 0
  otherwise, for every sequence of input events: the \<^verbatim>\<open>quit\<close> command, the end of input
  and a termination signal at the prompt all end the run with code 0.
\<close>

theorem exit_codes:
  "fst (main_blocker plat e argv evs w) = (if is_admin e then 0 else 1) \<and>
   fst (main_lag plat e evs w) = (if is_admin e then 0 else 1)"
  by (simp add: main_blocker_def main_lag_def run_blocker_exit run_lag_exit Let_def
        split: prod.splits)

text \<open>Between two library calls every way out of the programs revokes. A run that
  passes the privilege check ends, for every sequence of input events, with a controller
  that has no direction flagged and no PID recorded, or that is inactive; a constructed
  blocker satisfies \<open>ledger_inv\<close>, the block operations keep it, and from a state that
  satisfies it \<^verbatim>\<open>unblock\<close>, the destructor and the signal handler leave nothing
  recorded.\<close>

lemma teardown_between_calls:
  "(is_admin e \<longrightarrow>
      (\<exists>s'. fst (snd (main_blocker plat e argv evs w)) = Some s' \<and> nothing_blocked s') \<and>
      (\<exists>l'. fst (snd (main_lag plat e evs w)) = Some l' \<and> lag_off l')) \<and>
   ledger_inv plat (fst (NetCtrl plat e name w)) \<and>
   (ledger_inv plat s \<longrightarrow>
      ledger_inv plat (fst (snd (blockOutbound plat e p s w))) \<and>
      ledger_inv plat (fst (snd (blockInbound plat e p s w))) \<and>
      ledger_inv plat (fst (snd (block plat e p s w))) \<and>
      nothing_blocked (fst (snd (unblock plat e s w))) \<and>
      nothing_blocked (fst (NetCtrl_destroy plat e s w)) \<and>
      (\<exists>s'. fst (snd (cleanup_blocker plat e (Some s) w)) = Some s' \<and> nothing_blocked s')) \<and>
   lag_off (fst (snd (disable plat e l w))) \<and>
   lag_off (fst (LagCtrl_destroy plat e l w)) \<and>
   (\<exists>l'. fst (snd (cleanup_lag plat e (Some l) w)) = Some l' \<and> lag_off l')"
  by (simp add: main_blocker_clean main_lag_clean NetCtrl_inv blockOutbound_inv
        blockInbound_inv block_both_inv unblock_clean destroy_clean cleanup_blocker_clean
        disable_off destroy_lag_clean cleanup_lag_clean)

text \<open>
  C7. The code does not have this property for a signal that arrives inside a library
  call. \<^verbatim>\<open>blockLinux\<close> inserts the PID before its \<^verbatim>\<open>pclose\<close> and sets the direction's flag
  after it, and \<^verbatim>\<open>unblock\<close> returns at once while no flag is set. With the process
  running under PID 4242 and every command succeeding, a termination signal delivered
  while the first \<^verbatim>\<open>blockOutbound\<close> waits in \<^verbatim>\<open>pclose\<close> finds the rule appended and the PID
  recorded; the handler's \<^verbatim>\<open>unblock\<close> issues no command and clears nothing, and the
  process exits with the PID still recorded.
\<close>

theorem signal_in_block_keeps_pid:
  "at_pclose env_ok ''sober'' False ctrl0 world0 =
     Some (True, ctrl_pid_recorded, world_linux1) \<and>
   last (calls world_linux1) = System (pid_rule_cmd ''-A'' ''NETCTRL_OUT'' 4242) \<and>
   system_rc env_ok (butlast (calls world_linux1))
     (pid_rule_cmd ''-A'' ''NETCTRL_OUT'' 4242) = 0 \<and>
   signal_at_pclose env_ok ''sober'' False ctrl0 world0 =
     Some (0, Some ctrl_pid_recorded, world_linux1) \<and>
   blocked_pids_out ctrl_pid_recorded = [4242] \<and>
   \<not> isBlocked ctrl_pid_recorded \<and>
   \<not> nothing_blocked ctrl_pid_recorded"
proof -
  have f: "\<not> isBlocked ctrl_pid_recorded" "blocked_pids_out ctrl_pid_recorded = [4242]"
    by (simp_all add: isBlocked_def ctrl_pid_recorded_def ctrl_pid_def ctrl0_def)
  have c: "cleanup_blocker Linux env_ok (Some ctrl_pid_recorded) world_linux1 =
      (0, Some ctrl_pid_recorded, world_linux1)"
    by (simp add: cleanup_blocker_def unblock_noop [OF f(1)])
  show ?thesis
    by (simp add: at_pclose_first signal_at_pclose_def c f nothing_blocked_def env_answers)
       (simp add: world_linux1_def)
qed

text \<open>
  C8. On Linux the lag controller issues its apply commands in the background and never
  looks at their outcome. Whatever the environment answers, \<^verbatim>\<open>blockLinux\<close> returns
  \<open>true\<close> with the controller active, lag 0 and drop 100; and whenever an interface is
  known, so that \<^verbatim>\<open>applyLinux\<close> issues its \<^verbatim>\<open>tc qdisc add\<close> command at all, it returns
  \<open>true\<close> with the controller active and the requested lag and drop stored. A later
  \<^verbatim>\<open>disable\<close> then issues the undo commands: the \<^verbatim>\<open>tc qdisc del\<close> for the interface
  and the \<^verbatim>\<open>iptables -D\<close> pair.
\<close>

theorem optimistic_activation:
  "(case lag_blockLinux e s w of
      (r, s1, w1) \<Rightarrow>
        r \<and> isActive s1 \<and> getLag s1 = 0 \<and> getDrop s1 = Fin 100 \<and>
        calls w1 = calls w @ map System (disable_cmds Linux s) @
          [System ''iptables -w -I OUTPUT 1 -j DROP &'',
           System ''iptables -w -I INPUT 1 -j DROP &''] \<and>
        calls (snd (snd (disable Linux e s1 w1))) =
          calls w1 @ map System (disable_cmds Linux s) \<and>
        last (calls (snd (snd (disable Linux e s1 w1)))) = System iptables_del_cmd) \<and>
   (default_iface s \<noteq> [] \<longrightarrow>
     (case applyLinux e lag_ms drop_percent s w of
        (r, s1, w1) \<Rightarrow>
          r \<and> isActive s1 \<and> getLag s1 = lag_ms \<and> getDrop s1 = drop_percent \<and>
          calls w1 = calls w @ map System (disable_cmds Linux s) @
            [System (tc_add_cmd e (default_iface s) lag_ms drop_percent)] \<and>
          calls (snd (snd (disable Linux e s1 w1))) =
            calls w1 @ [System (tc_del_cmd (default_iface s)), System iptables_del_cmd]))"
  by (simp add: lag_blockLinux_eq applyLinux_eq disable_eq isActive_def getLag_def getDrop_def)
     (simp add: disable_cmds_def)

theorem optimistic_activation_witness:
  "default_iface lag0 \<noteq> [] \<and>
   (case applyLinux env_fail 100 (Fin 50) lag0 world0 of
      (r, s1, w1) \<Rightarrow>
        r \<and> isActive s1 \<and> getLag s1 = 100 \<and> getDrop s1 = Fin 50 \<and>
        calls (snd (snd (disable Linux env_fail s1 w1))) =
          calls w1 @ [System (tc_del_cmd (default_iface lag0)), System iptables_del_cmd])"
proof -
  have h: "default_iface lag0 \<noteq> []"
    by (simp add: lag0_def)
  from optimistic_activation
         [where e = env_fail and s = lag0 and w = world0 and lag_ms = 100
            and drop_percent = "Fin 50"] h
  show ?thesis by (simp split: prod.splits)
qed

text \<open>
  C9. An inactive lag controller reports lag 0 and drop 0.0. This holds of a freshly
  constructed controller and is kept by \<^verbatim>\<open>block\<close>, \<^verbatim>\<open>lag\<close> and \<^verbatim>\<open>disable\<close> on both
  platforms and in every environment; the queries \<^verbatim>\<open>isActive\<close>, \<^verbatim>\<open>getLag\<close> and
  \<^verbatim>\<open>getDrop\<close> only read the state.
\<close>

theorem inactive_reports_zero:
  "lag_inv (fst (LagCtrl plat e w0)) \<and>
   (lag_inv s \<longrightarrow>
      lag_inv (fst (snd (lag_block plat e s w))) \<and>
      lag_inv (fst (snd (lag plat e lag_ms drop_percent s w))) \<and>
      lag_inv (fst (snd (disable plat e s w))))"
  by (simp add: LagCtrl_off disable_off lag_off_inv lag_block_inv lag_inv_step)

theorem inactive_reports_zero_witness:
  "lag_inv lag0 \<and>
   lag_inv (fst (snd (lag_block Windows env_fail lag0 world0))) \<and>
   lag_inv (fst (snd (lag Linux env_ok 100 (Fin 50) lag0 world0))) \<and>
   lag_inv (fst (snd (disable Linux env_ok lag0 world0)))"
proof -
  have h: "lag_inv lag0"
    by (simp add: lag_inv_def lag0_def isActive_def getLag_def getDrop_def)
  from inactive_reports_zero
         [where plat = Windows and e = env_fail and s = lag0 and w = world0]
       inactive_reports_zero
         [where plat = Linux and e = env_ok and s = lag0 and w = world0 and lag_ms = 100
            and drop_percent = "Fin 50"] h
  show ?thesis by simp
qed

text \<open>
  C10. On Windows, \<^verbatim>\<open>lag\<close> with a drop percentage below 100 returns \<open>false\<close>, issues no
  command and leaves the controller exactly as it was, so \<^verbatim>\<open>isActive\<close>, \<^verbatim>\<open>getLag\<close> and
  \<^verbatim>\<open>getDrop\<close> keep their values: only the full block is implemented there.
\<close>

theorem windows_partial_loss_rejected:
  "double_lt drop_percent (Fin 100) \<Longrightarrow>
   lag Windows e lag_ms drop_percent s w = (False, s, w)"
  by (simp add: lag_def applyWindows_def not_ge_of_lt_100)

theorem windows_partial_loss_rejected_witness:
  "double_lt (Fin 50) (Fin 100) \<and>
   lag Windows env_ok 100 (Fin 50)
     (lag0\<lparr>is_active := True, current_drop_percent := Fin 100\<rparr>) world0 =
     (False, lag0\<lparr>is_active := True, current_drop_percent := Fin 100\<rparr>, world0)"
proof -
  have h: "double_lt (Fin 50) (Fin 100)"
    by (simp add: double_lt_def double_gt_def)
  from windows_partial_loss_rejected [OF h] show ?thesis using h by simp
qed


end
